theory Spec2Isabelle
  imports Complex_Main "HOL-Library.Monad_Syntax" "HOL-Library.Multiset" "HOL-Library.Word"
begin

section \<open>Tensors\<close>

text \<open>
  Both notebooks compute on dense numeric tensors (TensorFlow in the style-transfer
  notebook, PyTorch in the Reptile notebook). A tensor is a shape together with its
  entries in row-major order. The entries are \<open>float32\<close> in the notebooks. The
  operations of this section and the next two compute on them as real numbers, without
  rounding; the operations whose rounding decides a property are modelled a second time
  in the section on \<open>float32\<close> arithmetic, with the suffix \<open>32\<close>.
  A well-formed tensor has as many entries as its shape announces.

  The notebooks only ever combine tensors of equal shape. An elementwise operation on
  operands of different shapes (where the libraries would broadcast or raise) has the
  result \<open>None\<close>, as has every Python exception (a missing dictionary key, an index
  beyond the rank of a shape).
\<close>

record tensor =
  shape :: "nat list"
  data :: "real list"

definition wf_tensor :: "tensor \<Rightarrow> bool" where
  "wf_tensor t \<longleftrightarrow> length (data t) = prod_list (shape t)"

definition same_shape :: "tensor \<Rightarrow> tensor \<Rightarrow> bool" where
  "same_shape a b \<longleftrightarrow> shape a = shape b \<and> length (data a) = length (data b)"

definition elementwise :: "(real \<Rightarrow> real \<Rightarrow> real) \<Rightarrow> tensor \<Rightarrow> tensor \<Rightarrow> tensor option" where
  "elementwise f a b =
     (if same_shape a b then Some \<lparr>shape = shape a, data = map2 f (data a) (data b)\<rparr>
      else None)"

definition t_sub :: "tensor \<Rightarrow> tensor \<Rightarrow> tensor option" where
  "t_sub a b = elementwise (\<lambda>u v. u - v) a b"

definition t_add :: "tensor \<Rightarrow> tensor \<Rightarrow> tensor option" where
  "t_add a b = elementwise (\<lambda>u v. u + v) a b"

definition t_scale :: "tensor \<Rightarrow> real \<Rightarrow> tensor" where
  \<comment> \<open>tensor \<open>*\<close> Python float\<close>
  "t_scale a s = a\<lparr>data := map (\<lambda>u. u * s) (data a)\<rparr>"

definition dim :: "tensor \<Rightarrow> nat \<Rightarrow> nat option" where
  \<comment> \<open>\<open>t.get_shape()[k]\<close>\<close>
  "dim t k = (if k < length (shape t) then Some (shape t ! k) else None)"

section \<open>Style transfer: the loss functions\<close>

text \<open>
  The mean of an empty tensor and a quotient by 0 are NaN or infinite in TensorFlow;
  here they are 0, as every quotient by 0 is in HOL.
\<close>

definition tf_square :: "tensor \<Rightarrow> tensor" where
  "tf_square t = t\<lparr>data := map (\<lambda>u. u * u) (data t)\<rparr>"

definition tf_reduce_mean :: "tensor \<Rightarrow> real" where
  "tf_reduce_mean t = sum_list (data t) / real (length (data t))"

definition content_loss ::
  "(string \<rightharpoonup> tensor) \<Rightarrow> (string \<rightharpoonup> tensor) \<Rightarrow> string \<Rightarrow> real option" where
  "content_loss P X layer = do {
     p \<leftarrow> P layer;
     x \<leftarrow> X layer;
     d \<leftarrow> t_sub x p;
     Some (1 / 2 * tf_reduce_mean (tf_square d))
   }"

text \<open>The mean squared error of two equally long sequences of entries, as the
  specification words the content distance.\<close>

definition mean_squared_error :: "real list \<Rightarrow> real list \<Rightarrow> real" where
  "mean_squared_error xs ps =
     sum_list (map2 (\<lambda>x p. (x - p)\<^sup>2) xs ps) / real (length xs)"

text \<open>
  \<open>tf.reshape(t, shape=[-1, c])\<close>: the same entries read as rows of \<open>c\<close> entries; the
  number of rows is inferred, which fails when \<open>c\<close> is 0 or does not divide the size.
\<close>

definition tf_reshape_rows :: "tensor \<Rightarrow> nat \<Rightarrow> tensor option" where
  "tf_reshape_rows t c =
     (if c = 0 \<or> \<not> c dvd length (data t) then None
      else Some \<lparr>shape = [length (data t) div c, c], data = data t\<rparr>)"

text \<open>\<open>tf.transpose\<close> and \<open>tf.matmul\<close>, for matrices (rank 2), which is how
  \<open>gram_matrix\<close> calls them.\<close>

definition tf_transpose :: "tensor \<Rightarrow> tensor option" where
  "tf_transpose t =
     (case shape t of
        [m, n] \<Rightarrow>
          Some \<lparr>shape = [n, m],
                data = concat (map (\<lambda>j. map (\<lambda>i. data t ! (i * n + j)) [0..<m]) [0..<n])\<rparr>
      | _ \<Rightarrow> None)"

definition tf_matmul :: "tensor \<Rightarrow> tensor \<Rightarrow> tensor option" where
  "tf_matmul a b =
     (case (shape a, shape b) of
        ([m, k], [k', n]) \<Rightarrow>
          if k = k' then
            Some \<lparr>shape = [m, n],
                  data = concat (map (\<lambda>i. map (\<lambda>j.
                           sum_list (map (\<lambda>l. data a ! (i * k + l) * data b ! (l * n + j)) [0..<k]))
                         [0..<n]) [0..<m])\<rparr>
          else None
      | _ \<Rightarrow> None)"

definition gram_matrix :: "tensor \<Rightarrow> tensor option" where
  "gram_matrix t = do {
     num_channels \<leftarrow> dim t 3;
     matrix \<leftarrow> tf_reshape_rows t num_channels;
     mt \<leftarrow> tf_transpose matrix;
     tf_matmul mt matrix
   }"

text \<open>
  In \<open>style_loss\<close> the layer sizes \<open>N\<close> and \<open>M\<close> are static dimensions; \<open>tf.square\<close> turns
  each into an \<open>int32\<close> tensor, so the squares and their product are computed in 32-bit
  two's complement arithmetic before the cast to \<open>float32\<close>.
\<close>

definition dim_square :: "nat \<Rightarrow> 32 word" where
  "dim_square n = word_of_nat n * word_of_nat n"

definition style_loss ::
  "(string \<rightharpoonup> tensor) \<Rightarrow> (string \<rightharpoonup> tensor) \<Rightarrow> string \<Rightarrow> real option" where
  "style_loss S X layer = do {
     s \<leftarrow> S layer;
     x \<leftarrow> X layer;
     S_gram \<leftarrow> gram_matrix s;
     X_gram \<leftarrow> gram_matrix x;
     N \<leftarrow> dim s 1;
     M2 \<leftarrow> dim s 2;
     M3 \<leftarrow> dim s 3;
     d \<leftarrow> t_sub X_gram S_gram;
     Some (tf_reduce_mean (tf_square d)
           / (4 * real_of_int (sint (dim_square N * dim_square (M2 * M3)))))
   }"

definition at3 :: "tensor \<Rightarrow> nat \<Rightarrow> nat \<Rightarrow> nat \<Rightarrow> nat \<Rightarrow> nat \<Rightarrow> real" where
  \<comment> \<open>entry \<open>[i, j, k]\<close> of a tensor of shape \<open>[h, w, c]\<close>\<close>
  "at3 x w c i j k = data x ! ((i * w + j) * c + k)"

definition total_variation_loss_lX :: "tensor \<Rightarrow> real option" where
  "total_variation_loss_lX x =
     (case shape x of
        [h, w, c] \<Rightarrow>
          Some (sum_list (concat (map (\<lambda>i. concat (map (\<lambda>j. map (\<lambda>k.
                  ((at3 x w c (i + 1) j k - at3 x w c i j k)\<^sup>2
                   + (at3 x w c i (j + 1) k - at3 x w c i j k)\<^sup>2) powr 1.25)
                [0..<c]) [0..<w - 1])) [0..<h - 1])))
      | _ \<Rightarrow> None)"

definition cl :: real where "cl = 10"
definition sl :: real where "sl = 2 * 1000 * 1000"
definition vp :: real where "vp = 10 / 1000 / 1000"

text \<open>
  The list \<open>losses\<close> and \<open>total_loss = tf.reduce_sum(losses)\<close>. \<open>P\<close> is \<open>photo_features\<close>,
  \<open>S\<close> is \<open>style_features\<close>, \<open>X\<close> is \<open>art_features\<close> (the network's layers on the current
  image) and \<open>img\<close> is \<open>input_image_float\<close>.
\<close>

definition losses ::
  "(string \<rightharpoonup> tensor) \<Rightarrow> (string \<rightharpoonup> tensor) \<Rightarrow> (string \<rightharpoonup> tensor) \<Rightarrow> tensor
     \<Rightarrow> real list option" where
  "losses P S X img = do {
     c \<leftarrow> content_loss P X ''Mixed_4b'';
     s1 \<leftarrow> style_loss S X ''Conv2d_1a_7x7'';
     s2 \<leftarrow> style_loss S X ''Conv2d_2c_3x3'';
     s3 \<leftarrow> style_loss S X ''Mixed_3b'';
     s4 \<leftarrow> style_loss S X ''Mixed_4d'';
     tv \<leftarrow> total_variation_loss_lX img;
     Some [cl * 1 * c, sl * 1 * s1, sl * 1 * s2, sl * 10 * s3, sl * 10 * s4, vp * 1 * tv]
   }"

definition total_loss ::
  "(string \<rightharpoonup> tensor) \<Rightarrow> (string \<rightharpoonup> tensor) \<Rightarrow> (string \<rightharpoonup> tensor) \<Rightarrow> tensor
     \<Rightarrow> real option" where
  "total_loss P S X img = map_option sum_list (losses P S X img)"

text \<open>
  A permutation of the spatial positions of an activation tensor of shape
  \<open>[n, h, w, c]\<close>, the same for every image of the batch and every channel: position \<open>p\<close>
  (of \<open>h * w\<close>) of the result holds the channel vector found at position \<open>perm ! p\<close>.
\<close>

definition is_permutation :: "nat list \<Rightarrow> nat \<Rightarrow> bool" where
  "is_permutation perm k \<longleftrightarrow> length perm = k \<and> distinct perm \<and> set perm = {..<k}"

definition spatial_permute :: "nat list \<Rightarrow> tensor \<Rightarrow> tensor" where
  "spatial_permute perm t =
     (case shape t of
        [n, h, w, c] \<Rightarrow>
          t\<lparr>data := map (\<lambda>idx. let r = idx div c; k = idx mod c in
                         data t ! (((r div (h * w)) * (h * w) + perm ! (r mod (h * w))) * c + k))
                     [0..<length (data t)]\<rparr>
      | _ \<Rightarrow> t)"

text \<open>
  Notions used to state the properties of \<open>gram_matrix\<close>: entry \<open>(i, j)\<close> of the product
  of the transposed row matrix with itself, symmetry and positive semidefiniteness of a
  square matrix, and the row a spatial permutation moves to row \<open>r\<close> (for \<open>k\<close> positions
  per image).
\<close>

definition gram_entry :: "real list \<Rightarrow> nat \<Rightarrow> nat \<Rightarrow> nat \<Rightarrow> real" where
  "gram_entry d c i j =
     sum_list (map (\<lambda>l. d ! (l * c + i) * d ! (l * c + j)) [0..<length d div c])"

definition symmetric :: "tensor \<Rightarrow> bool" where
  "symmetric g \<longleftrightarrow> tf_transpose g = Some g"

definition positive_semidefinite :: "tensor \<Rightarrow> bool" where
  "positive_semidefinite g \<longleftrightarrow>
     (case shape g of
        [m, n] \<Rightarrow> m = n \<and>
          (\<forall>v. length v = n \<longrightarrow>
             0 \<le> (\<Sum>i<n. \<Sum>j<n. v ! i * data g ! (i * n + j) * v ! j))
      | _ \<Rightarrow> False)"

definition moved_row :: "nat list \<Rightarrow> nat \<Rightarrow> nat \<Rightarrow> nat" where
  "moved_row perm k r = (r div k) * k + perm ! (r mod k)"

section \<open>Reptile on sine waves\<close>

text \<open>
  A state dict (\<open>model.state_dict()\<close>) is an ordered dictionary from parameter names to
  tensors: an association list, whose keys are distinct in every state dict of a module.
\<close>

type_synonym state_dict = "(string \<times> tensor) list"

definition signature :: "state_dict \<Rightarrow> (string \<times> nat list \<times> nat) list" where
  \<comment> \<open>names, shapes and sizes\<close>
  "signature W = map (\<lambda>(name, t). (name, shape t, length (data t))) W"

text \<open>The hyperparameters of the second cell; the counts are natural numbers.\<close>

record hyper =
  inner_stepsize :: real
  inner_epochs :: nat
  inner_batchsize :: nat
  outer_stepsize0 :: real
  outer_steps :: nat
  plot :: bool

definition notebook_hyper :: hyper where
  "notebook_hyper =
     \<lparr>inner_stepsize = 0.02, inner_epochs = 1, inner_batchsize = 10,
      outer_stepsize0 = 0.1, outer_steps = 10000, plot = True\<rparr>"

text \<open>
  What the notebook takes from its libraries: NumPy's random generator (whose state is
  threaded through \<open>uniform\<close> and \<open>permutation\<close>), the function the \<open>nn.Sequential\<close>
  network computes from its parameters on a column of inputs, and the gradient that
  \<open>loss.backward()\<close> leaves in \<open>param.grad\<close> for the parameters in order, for the loss
  \<open>(model(x) - y).pow(2).mean()\<close> at the current parameters.
\<close>

record 'r library =
  uniform :: "'r \<Rightarrow> real \<Rightarrow> real \<Rightarrow> real \<times> 'r"
  permutation :: "'r \<Rightarrow> nat \<Rightarrow> nat list \<times> 'r"
  net :: "state_dict \<Rightarrow> real list \<Rightarrow> real list"
  grad :: "state_dict \<Rightarrow> real list \<Rightarrow> real list \<Rightarrow> tensor list"

text \<open>The state that the cells share and change: the model's parameters and the
  random generator.\<close>

record 'r notebook =
  model :: state_dict
  rng :: 'r

definition x_all :: "real list" where
  \<comment> \<open>\<open>np.linspace(-5, 5, 50)[:,None]\<close>\<close>
  "x_all = map (\<lambda>k. - 5 + real k * ((5 - (- 5)) / (50 - 1))) [0..<50]"

definition gen_task :: "'r library \<Rightarrow> 'r \<Rightarrow> (real \<Rightarrow> real) \<times> 'r" where
  "gen_task lib r =
     (let (phase, r1) = uniform lib r 0 (2 * pi);
          (ampl, r2) = uniform lib r1 2 5
      in (\<lambda>x. sin (x + phase) * ampl, r2))"

fun for_each :: "('a \<Rightarrow> 'b option) \<Rightarrow> 'a list \<Rightarrow> 'b list option" where
  "for_each f [] = Some []"
| "for_each f (x # xs) = do { y \<leftarrow> f x; ys \<leftarrow> for_each f xs; Some (y # ys) }"

definition train_current_model_on_batch ::
  "'r library \<Rightarrow> hyper \<Rightarrow> state_dict \<Rightarrow> real list \<Rightarrow> real list \<Rightarrow> state_dict option" where
  "train_current_model_on_batch lib hp W x y =
     (let g = grad lib W x y in
      if length g = length W then
        for_each (\<lambda>((name, param), param_grad).
                    map_option (Pair name) (t_sub param (t_scale param_grad (inner_stepsize hp))))
                 (zip W g)
      else None)"

definition predict_using_current_model :: "'r library \<Rightarrow> state_dict \<Rightarrow> real list \<Rightarrow> real list" where
  "predict_using_current_model lib W x = net lib W x"

definition py_range_step :: "nat \<Rightarrow> nat \<Rightarrow> nat list option" where
  \<comment> \<open>\<open>range(0, n, step)\<close>\<close>
  "py_range_step n step =
     (if step = 0 then None else Some (map (\<lambda>k. k * step) [0..<(n + step - 1) div step]))"

definition take_rows :: "real list \<Rightarrow> nat list \<Rightarrow> real list option" where
  \<comment> \<open>\<open>x[batch_indices]\<close>\<close>
  "take_rows xs idx =
     (if list_all (\<lambda>i. i < length xs) idx then Some (map (\<lambda>i. xs ! i) idx) else None)"

fun train_batches ::
  "'r library \<Rightarrow> hyper \<Rightarrow> real list \<Rightarrow> nat list \<Rightarrow> nat list \<Rightarrow> state_dict \<Rightarrow> state_dict option" where
  "train_batches lib hp y_all inds [] W = Some W"
| "train_batches lib hp y_all inds (start # starts) W = do {
     let batch_indices = take (inner_batchsize hp) (drop start inds);
     xb \<leftarrow> take_rows x_all batch_indices;
     yb \<leftarrow> take_rows y_all batch_indices;
     W' \<leftarrow> train_current_model_on_batch lib hp W xb yb;
     train_batches lib hp y_all inds starts W'
   }"

fun train_epochs ::
  "'r library \<Rightarrow> hyper \<Rightarrow> real list \<Rightarrow> nat list \<Rightarrow> nat \<Rightarrow> state_dict \<Rightarrow> state_dict option" where
  "train_epochs lib hp y_all inds 0 W = Some W"
| "train_epochs lib hp y_all inds (Suc n) W = do {
     starts \<leftarrow> py_range_step (length x_all) (inner_batchsize hp);
     W' \<leftarrow> train_batches lib hp y_all inds starts W;
     train_epochs lib hp y_all inds n W'
   }"

definition outer_stepsize :: "hyper \<Rightarrow> nat \<Rightarrow> real" where
  \<comment> \<open>the linear schedule; only computed inside the loop, where \<open>outer_steps\<close> is not 0\<close>
  "outer_stepsize hp outer_step =
     outer_stepsize0 hp * (1 - real outer_step / real (outer_steps hp))"

definition interpolate :: "state_dict \<Rightarrow> state_dict \<Rightarrow> real \<Rightarrow> state_dict option" where
  \<comment> \<open>the dictionary comprehension over the names of \<open>weights_before\<close>\<close>
  "interpolate weights_before weights_after s =
     for_each (\<lambda>(name, b). do {
                 a \<leftarrow> map_of weights_after name;
                 d \<leftarrow> t_sub a b;
                 v \<leftarrow> t_add b (t_scale d s);
                 Some (name, v)
               }) weights_before"

definition load_state_dict :: "state_dict \<Rightarrow> state_dict \<Rightarrow> state_dict option" where
  \<comment> \<open>strict: the same names, and each tensor of the parameter's shape, copied into it\<close>
  "load_state_dict W d =
     (if set (map fst d) = set (map fst W) then
        for_each (\<lambda>(name, param). do {
                    v \<leftarrow> map_of d name;
                    if same_shape v param then Some (name, v) else None
                  }) W
      else None)"

fun train_steps ::
  "'r library \<Rightarrow> hyper \<Rightarrow> real list \<Rightarrow> real list \<Rightarrow> nat \<Rightarrow> state_dict \<Rightarrow> state_dict option" where
  "train_steps lib hp x y 0 W = Some W"
| "train_steps lib hp x y (Suc n) W = do {
     W' \<leftarrow> train_current_model_on_batch lib hp W x y;
     train_steps lib hp x y n W'
   }"

text \<open>
  The plotting branch: a snapshot of the weights (a deep copy), 32 training steps on the
  fixed task and minibatch, and the weights loaded back from the snapshot. The curves it
  draws and the loss it prints are read from the model and leave the state alone.
\<close>

definition plot_branch ::
  "'r library \<Rightarrow> hyper \<Rightarrow> (real \<Rightarrow> real) \<Rightarrow> real list \<Rightarrow> state_dict \<Rightarrow> state_dict option" where
  "plot_branch lib hp f_plot xtrain_plot W = do {
     let weights_before = W;
     W' \<leftarrow> train_steps lib hp xtrain_plot (map f_plot xtrain_plot) 32 W;
     load_state_dict W' weights_before
   }"

definition plots_now :: "hyper \<Rightarrow> nat \<Rightarrow> bool" where
  "plots_now hp outer_step \<longleftrightarrow> plot hp \<and> outer_step = 0 \<or> (outer_step + 1) mod 1000 = 0"

text \<open>
  The inner training of one outer iteration, from the sampling of the task to the end
  of the epochs; it changes the model in place and advances the random generator.
\<close>

definition inner_training :: "'r library \<Rightarrow> hyper \<Rightarrow> 'r notebook \<Rightarrow> 'r notebook option" where
  "inner_training lib hp st =
     (let (f, r1) = gen_task lib (rng st);
          y_all = map f x_all;
          (inds, r2) = permutation lib r1 (length x_all)
      in map_option (\<lambda>W. \<lparr>model = W, rng = r2\<rparr>)
           (train_epochs lib hp y_all inds (inner_epochs hp) (model st)))"

text \<open>
  One pass through the body of the Reptile loop. \<open>weights_before\<close> is a deep copy, taken
  before the inner training; \<open>weights_after\<close> is the model's own state dict, read after
  it, and nothing changes the model between that read and the interpolation.
\<close>

definition reptile_iteration ::
  "'r library \<Rightarrow> hyper \<Rightarrow> (real \<Rightarrow> real) \<Rightarrow> real list \<Rightarrow> nat \<Rightarrow> 'r notebook \<Rightarrow> 'r notebook option" where
  "reptile_iteration lib hp f_plot xtrain_plot outer_step st = do {
     let weights_before = model st;
     st1 \<leftarrow> inner_training lib hp st;
     let weights_after = model st1;
     new \<leftarrow> interpolate weights_before weights_after (outer_stepsize hp outer_step);
     W \<leftarrow> load_state_dict (model st1) new;
     W' \<leftarrow> (if plots_now hp outer_step then plot_branch lib hp f_plot xtrain_plot W else Some W);
     Some (st1\<lparr>model := W'\<rparr>)
   }"

fun reptile_loop ::
  "'r library \<Rightarrow> hyper \<Rightarrow> (real \<Rightarrow> real) \<Rightarrow> real list \<Rightarrow> nat list \<Rightarrow> 'r notebook \<Rightarrow> 'r notebook option" where
  "reptile_loop lib hp f_plot xtrain_plot [] st = Some st"
| "reptile_loop lib hp f_plot xtrain_plot (outer_step # rest) st = do {
     st' \<leftarrow> reptile_iteration lib hp f_plot xtrain_plot outer_step st;
     reptile_loop lib hp f_plot xtrain_plot rest st'
   }"

definition reptile_training ::
  "'r library \<Rightarrow> hyper \<Rightarrow> (real \<Rightarrow> real) \<Rightarrow> real list \<Rightarrow> 'r notebook \<Rightarrow> 'r notebook option" where
  "reptile_training lib hp f_plot xtrain_plot st =
     reptile_loop lib hp f_plot xtrain_plot [0..<outer_steps hp] st"

text \<open>
  What the libraries guarantee: a gradient has the shape of its parameter, and a
  permutation of \<open>n\<close> indices holds indices below \<open>n\<close>.
\<close>

definition library_ok :: "'r library \<Rightarrow> bool" where
  "library_ok lib \<longleftrightarrow>
     (\<forall>W x y. map (\<lambda>t. (shape t, length (data t))) (grad lib W x y)
               = map (\<lambda>(name, t). (shape t, length (data t))) W)
   \<and> (\<forall>r n. list_all (\<lambda>i. i < n) (fst (permutation lib r n)))"

text \<open>The point between two tensors that the specification describes:
  \<open>b + s * (a - b)\<close>, entry by entry.\<close>

definition lerp :: "tensor \<Rightarrow> tensor \<Rightarrow> real \<Rightarrow> tensor" where
  "lerp b a s = \<lparr>shape = shape b, data = map2 (\<lambda>u v. u + s * (v - u)) (data b) (data a)\<rparr>"

text \<open>
  Two abbreviations for the proofs: the body of the dictionary comprehension for one
  name, and the named tensor it produces.
\<close>

definition interpolate_one :: "state_dict \<Rightarrow> real \<Rightarrow> string \<times> tensor \<Rightarrow> (string \<times> tensor) option" where
  "interpolate_one wa s = (\<lambda>(name, b). do {
                 a \<leftarrow> map_of wa name;
                 d \<leftarrow> t_sub a b;
                 v \<leftarrow> t_add b (t_scale d s);
                 Some (name, v)
               })"

definition lerp_named :: "real \<Rightarrow> string \<times> tensor \<Rightarrow> string \<times> tensor \<Rightarrow> string \<times> tensor" where
  "lerp_named s = (\<lambda>(name, b) (name', a). (name, lerp b a s))"

text \<open>
  A small library to run the definitions on: a generator that always draws phase 0 and
  amplitude 3 and leaves the indices in order, a network that is linear in its weights,
  and a gradient equal to the weights themselves.
\<close>

definition example_library :: "unit library" where
  "example_library =
     \<lparr>uniform = (\<lambda>r low high. (if low = 0 then 0 else 3, r)),
      permutation = (\<lambda>r n. ([0..<n], r)),
      net = (\<lambda>W x. map (\<lambda>v. v * sum_list (concat (map (\<lambda>(name, t). data t) W))) x),
      grad = (\<lambda>W x y. map snd W)\<rparr>"

definition example_notebook :: "unit notebook" where
  "example_notebook =
     \<lparr>model = [(''0.weight'', \<lparr>shape = [1, 1], data = [1]\<rparr>),
               (''0.bias'', \<lparr>shape = [1], data = [2]\<rparr>)],
      rng = ()\<rparr>"

section \<open>float32 arithmetic\<close>

text \<open>
  The tensors of both notebooks hold \<open>float32\<close> values, and every operation on them
  rounds its exact result to the nearest \<open>float32\<close>, ties to even. Where a property is
  decided by that rounding, the operation is modelled with it. \<open>round32\<close> is the rounding
  of IEEE 754 binary32: 24 significant bits, subnormal numbers down to \<open>2 ^ -149\<close>. A
  finite \<open>float32\<close> value is a real number that \<open>round32\<close> returns unchanged. The result
  \<open>None\<close> stands for an overflow, where the code holds an infinity (and a NaN after
  it); the two zeros are not told apart.
\<close>

fun ilog2 :: "nat \<Rightarrow> nat" where
  "ilog2 n = (if n < 2 then 0 else Suc (ilog2 (n div 2)))"

declare ilog2.simps [simp del]

definition round_half_even :: "real \<Rightarrow> int" where
  "round_half_even z =
     (let f = \<lfloor>z\<rfloor>; d = z - of_int f
      in if d < 1 / 2 then f else if 1 / 2 < d then f + 1 else if even f then f else f + 1)"

definition round32 :: "real \<Rightarrow> real option" where
  \<comment> \<open>in units of \<open>2 ^ -149\<close>, a value of \<open>k + 1\<close> bits is rounded to a multiple of
     \<open>2 ^ (k - 23)\<close>\<close>
  "round32 x =
     (let y = x * 2 ^ 149;
          q = 2 ^ (ilog2 (nat \<lfloor>\<bar>y\<bar>\<rfloor>) - 23);
          r = of_int (round_half_even (y / q)) * q
      in if 2 ^ 277 \<le> \<bar>r\<bar> then None else Some (r / 2 ^ 149))"

definition finite32 :: "tensor \<Rightarrow> bool" where
  "finite32 t \<longleftrightarrow> list_all (\<lambda>u. round32 u = Some u) (data t)"

definition finite32_dict :: "state_dict \<Rightarrow> bool" where
  "finite32_dict W \<longleftrightarrow> list_all (\<lambda>(name, t). finite32 t) W"

definition elementwise32 :: "(real \<Rightarrow> real \<Rightarrow> real) \<Rightarrow> tensor \<Rightarrow> tensor \<Rightarrow> tensor option" where
  "elementwise32 f a b =
     (if same_shape a b then
        map_option (\<lambda>d. \<lparr>shape = shape a, data = d\<rparr>)
          (for_each (\<lambda>(u, v). round32 (f u v)) (zip (data a) (data b)))
      else None)"

definition t_sub32 :: "tensor \<Rightarrow> tensor \<Rightarrow> tensor option" where
  "t_sub32 a b = elementwise32 (\<lambda>u v. u - v) a b"

definition t_add32 :: "tensor \<Rightarrow> tensor \<Rightarrow> tensor option" where
  "t_add32 a b = elementwise32 (\<lambda>u v. u + v) a b"

definition t_scale32 :: "tensor \<Rightarrow> real \<Rightarrow> tensor option" where
  \<comment> \<open>tensor \<open>*\<close> Python float: the factor is converted to \<open>float32\<close> first\<close>
  "t_scale32 a s = do {
     s32 \<leftarrow> round32 s;
     d \<leftarrow> for_each (\<lambda>u. round32 (u * s32)) (data a);
     Some (a\<lparr>data := d\<rparr>)
   }"

definition interpolate32 :: "state_dict \<Rightarrow> state_dict \<Rightarrow> real \<Rightarrow> state_dict option" where
  \<comment> \<open>the dictionary comprehension of the meta-update, in \<open>float32\<close>\<close>
  "interpolate32 weights_before weights_after s =
     for_each (\<lambda>(name, b). do {
                 a \<leftarrow> map_of weights_after name;
                 d \<leftarrow> t_sub32 a b;
                 e \<leftarrow> t_scale32 d s;
                 v \<leftarrow> t_add32 b e;
                 Some (name, v)
               }) weights_before"

definition differences :: "state_dict \<Rightarrow> state_dict \<Rightarrow> real list" where
  \<comment> \<open>the exact differences \<open>weights_after - weights_before\<close>, entry by entry\<close>
  "differences weights_before weights_after =
     concat (map2 (\<lambda>(name, b) (name', a). map2 (\<lambda>v u. v - u) (data a) (data b))
               weights_before weights_after)"

text \<open>
  \<open>tf.matmul\<close> in \<open>float32\<close>. The order in which the library adds the products of one
  entry is its own; here they are added in the order of the index, each product and each
  partial sum rounded.
\<close>

fun accumulate32 :: "real \<Rightarrow> (real \<times> real) list \<Rightarrow> real option" where
  "accumulate32 acc [] = Some acc"
| "accumulate32 acc ((u, v) # ps) = do {
     p \<leftarrow> round32 (u * v);
     acc' \<leftarrow> round32 (acc + p);
     accumulate32 acc' ps
   }"

text \<open>An accumulation is exact when none of its roundings changes a value.\<close>

fun exact_accumulation :: "real \<Rightarrow> (real \<times> real) list \<Rightarrow> bool" where
  "exact_accumulation acc [] = True"
| "exact_accumulation acc ((u, v) # ps) =
     (round32 (u * v) = Some (u * v) \<and> round32 (acc + u * v) = Some (acc + u * v)
      \<and> exact_accumulation (acc + u * v) ps)"

definition tf_matmul32 :: "tensor \<Rightarrow> tensor \<Rightarrow> tensor option" where
  "tf_matmul32 a b =
     (case (shape a, shape b) of
        ([m, k], [k', n]) \<Rightarrow>
          if k = k' then
            map_option (\<lambda>d. \<lparr>shape = [m, n], data = d\<rparr>)
              (for_each (\<lambda>(i, j).
                   accumulate32 0 (map (\<lambda>l. (data a ! (i * k + l), data b ! (l * n + j))) [0..<k]))
                 (concat (map (\<lambda>i. map (Pair i) [0..<n]) [0..<m])))
          else None
      | _ \<Rightarrow> None)"

definition gram_matrix32 :: "tensor \<Rightarrow> tensor option" where
  "gram_matrix32 t = do {
     num_channels \<leftarrow> dim t 3;
     matrix \<leftarrow> tf_reshape_rows t num_channels;
     mt \<leftarrow> tf_transpose matrix;
     tf_matmul32 mt matrix
   }"

definition gram_products :: "tensor \<Rightarrow> nat \<Rightarrow> nat \<Rightarrow> nat \<Rightarrow> (real \<times> real) list" where
  \<comment> \<open>the factors of the products that make up entry \<open>(i, j)\<close>, in the order of the rows\<close>
  "gram_products t c i j =
     map (\<lambda>r. (data t ! (r * c + i), data t ! (r * c + j))) [0..<length (data t) div c]"

section \<open>Properties\<close>

lemma t_sub_same_shape:
  "same_shape a b \<Longrightarrow>
     t_sub a b = Some \<lparr>shape = shape a, data = map2 (\<lambda>u v. u - v) (data a) (data b)\<rparr>"
  by (simp add: t_sub_def elementwise_def)

lemma map_square_map2_sub:
  "map (\<lambda>u. u * u) (map2 (\<lambda>u v. u - v) xs ps) = map2 (\<lambda>x p. (x - p)\<^sup>2) xs (ps :: real list)"
  by (induction xs ps rule: list_induct2') (simp_all add: power2_eq_square)

text \<open>
  C7 (as stated): \<open>content_loss\<close> returns the mean squared error of the two activation
  tensors. It does not: on the one-entry activations 2 and 0 the mean squared error is 4
  and \<open>content_loss\<close> is 2.
\<close>

theorem content_loss_not_mse:
  "content_loss [''Mixed_4b'' \<mapsto> \<lparr>shape = [1, 1, 1, 1], data = [0]\<rparr>]
                [''Mixed_4b'' \<mapsto> \<lparr>shape = [1, 1, 1, 1], data = [2]\<rparr>] ''Mixed_4b''
   \<noteq> Some (mean_squared_error [2] [0])"
  by (simp add: content_loss_def t_sub_def elementwise_def same_shape_def
      tf_reduce_mean_def tf_square_def mean_squared_error_def)

text \<open>
  C7 (amended): for equal-shaped activation tensors \<open>x\<close> and \<open>p\<close>, \<open>content_loss\<close>
  returns one half of the mean squared error, \<open>1/2 * mean((x - p)^2)\<close>.
\<close>

theorem content_loss_half_mse:
  assumes "P layer = Some p" and "X layer = Some x" and "same_shape x p"
  shows "content_loss P X layer = Some (1 / 2 * mean_squared_error (data x) (data p))"
proof -
  let ?d = "\<lparr>shape = shape x, data = map2 (\<lambda>u v. u - v) (data x) (data p)\<rparr>"
  have sub: "t_sub x p = Some ?d"
    using assms(3) by (rule t_sub_same_shape)
  have len: "length (data (tf_square ?d)) = length (data x)"
    using assms(3) by (simp add: same_shape_def tf_square_def)
  have sq: "data (tf_square ?d) = map2 (\<lambda>x p. (x - p)\<^sup>2) (data x) (data p)"
    by (simp only: tf_square_def tensor.simps map_square_map2_sub)
  have "tf_reduce_mean (tf_square ?d) = mean_squared_error (data x) (data p)"
    unfolding tf_reduce_mean_def mean_squared_error_def len unfolding sq ..
  then show ?thesis
    using assms(1,2) sub by (simp add: content_loss_def)
qed

theorem content_loss_half_mse_witness:
  "content_loss [''Mixed_4b'' \<mapsto> \<lparr>shape = [1, 1, 1, 2], data = [0, 1]\<rparr>]
                [''Mixed_4b'' \<mapsto> \<lparr>shape = [1, 1, 1, 2], data = [2, 4]\<rparr>] ''Mixed_4b''
   = Some (1 / 2 * mean_squared_error [2, 4] [0, 1])"
  using content_loss_half_mse
    [of "[''Mixed_4b'' \<mapsto> \<lparr>shape = [1, 1, 1, 2], data = [0, 1]\<rparr>]" "''Mixed_4b''"
        "\<lparr>shape = [1, 1, 1, 2], data = [0, 1]\<rparr>"
        "[''Mixed_4b'' \<mapsto> \<lparr>shape = [1, 1, 1, 2], data = [2, 4]\<rparr>]"
        "\<lparr>shape = [1, 1, 1, 2], data = [2, 4]\<rparr>"]
  by (simp add: same_shape_def)

subsection \<open>The Gram matrix\<close>

lemma length_concat_table:
  "length (concat (map (\<lambda>i. map (f i) [0..<n]) [0..<m])) = m * n"
  by (induction m) simp_all

lemma nth_concat_table:
  assumes "i < m" and "j < n"
  shows "concat (map (\<lambda>i. map (f i) [0..<n]) [0..<m]) ! (i * n + j) = f i j"
  using assms(1)
proof (induction m)
  case 0
  then show ?case by simp
next
  case (Suc m)
  show ?case
  proof (cases "i < m")
    case True
    then have "i * n + j < m * n"
      using assms(2) by (metis Suc_leI add_less_cancel_left mult_Suc mult_le_mono1 less_le_trans add.commute)
    with True Suc.IH show ?thesis
      by (simp add: nth_append length_concat_table)
  next
    case False
    with Suc.prems have "i = m" by simp
    then show ?thesis
      using assms(2) by (simp add: nth_append length_concat_table)
  qed
qed

lemma gram_matrix_entries:
  assumes "dim t 3 = Some c" and "0 < c" and "c dvd length (data t)"
  shows "gram_matrix t =
           Some \<lparr>shape = [c, c],
                 data = concat (map (\<lambda>i. map (\<lambda>j. gram_entry (data t) c i j) [0..<c]) [0..<c])\<rparr>"
proof -
  let ?d = "data t"
  let ?R = "length ?d div c"
  let ?mt = "concat (map (\<lambda>j. map (\<lambda>i. ?d ! (i * c + j)) [0..<?R]) [0..<c])"
  have resh: "tf_reshape_rows t c = Some \<lparr>shape = [?R, c], data = ?d\<rparr>"
    using assms(2,3) by (simp add: tf_reshape_rows_def)
  have tr: "tf_transpose \<lparr>shape = [?R, c], data = ?d\<rparr> = Some \<lparr>shape = [c, ?R], data = ?mt\<rparr>"
    by (simp add: tf_transpose_def)
  have entry: "sum_list (map (\<lambda>l. ?mt ! (i * ?R + l) * ?d ! (l * c + j)) [0..<?R])
                 = gram_entry ?d c i j" if "i < c" for i j
  proof -
    have "map (\<lambda>l. ?mt ! (i * ?R + l) * ?d ! (l * c + j)) [0..<?R]
            = map (\<lambda>l. ?d ! (l * c + i) * ?d ! (l * c + j)) [0..<?R]"
      using that by (intro map_cong refl) (simp add: nth_concat_table)
    then show ?thesis unfolding gram_entry_def by (rule arg_cong)
  qed
  have mm: "tf_matmul \<lparr>shape = [c, ?R], data = ?mt\<rparr> \<lparr>shape = [?R, c], data = ?d\<rparr>
              = Some \<lparr>shape = [c, c],
                      data = concat (map (\<lambda>i. map (\<lambda>j. gram_entry ?d c i j) [0..<c]) [0..<c])\<rparr>"
  proof -
    have "map (\<lambda>i. map (\<lambda>j. sum_list (map (\<lambda>l. ?mt ! (i * ?R + l) * ?d ! (l * c + j)) [0..<?R]))
                 [0..<c]) [0..<c]
            = map (\<lambda>i. map (\<lambda>j. gram_entry ?d c i j) [0..<c]) [0..<c]"
      by (intro map_cong refl) (simp add: entry)
    then have "concat (map (\<lambda>i. map (\<lambda>j. sum_list (map (\<lambda>l. ?mt ! (i * ?R + l) * ?d ! (l * c + j)) [0..<?R]))
                 [0..<c]) [0..<c])
            = concat (map (\<lambda>i. map (\<lambda>j. gram_entry ?d c i j) [0..<c]) [0..<c])"
      by (rule arg_cong)
    then show ?thesis by (simp add: tf_matmul_def)
  qed
  show ?thesis
    using assms(1) by (simp add: gram_matrix_def resh tr mm)
qed

lemma gram_entry_sym: "gram_entry d c i j = gram_entry d c j i"
  by (simp add: gram_entry_def mult.commute)

lemma sum_list_upt_sum: "sum_list (map f [0..<n]) = sum f {..<n}"
  by (simp add: interv_sum_list_conv_sum_set_nat atLeast0LessThan)

lemma quadratic_form_sum_squares:
  fixes v :: "nat \<Rightarrow> real" and a :: "nat \<Rightarrow> nat \<Rightarrow> real"
  shows "(\<Sum>i\<in>I. \<Sum>j\<in>I. v i * (\<Sum>l\<in>L. a l i * a l j) * v j) = (\<Sum>l\<in>L. (\<Sum>i\<in>I. v i * a l i)\<^sup>2)"
proof -
  have "(\<Sum>l\<in>L. (\<Sum>i\<in>I. v i * a l i)\<^sup>2) = (\<Sum>l\<in>L. \<Sum>i\<in>I. \<Sum>j\<in>I. (v i * a l i) * (v j * a l j))"
    by (simp add: power2_eq_square sum_product)
  also have "\<dots> = (\<Sum>i\<in>I. \<Sum>l\<in>L. \<Sum>j\<in>I. (v i * a l i) * (v j * a l j))"
    by (rule sum.swap)
  also have "\<dots> = (\<Sum>i\<in>I. \<Sum>j\<in>I. \<Sum>l\<in>L. (v i * a l i) * (v j * a l j))"
    by (intro sum.cong refl sum.swap)
  also have "\<dots> = (\<Sum>i\<in>I. \<Sum>j\<in>I. v i * (\<Sum>l\<in>L. a l i * a l j) * v j)"
    by (intro sum.cong refl) (simp add: sum_distrib_left sum_distrib_right mult_ac)
  finally show ?thesis by simp
qed

lemma gram_table_symmetric:
  "symmetric \<lparr>shape = [c, c],
              data = concat (map (\<lambda>i. map (\<lambda>j. gram_entry d c i j) [0..<c]) [0..<c])\<rparr>"
proof -
  let ?tab = "concat (map (\<lambda>i. map (\<lambda>j. gram_entry d c i j) [0..<c]) [0..<c])"
  have "map (\<lambda>j. map (\<lambda>i. ?tab ! (i * c + j)) [0..<c]) [0..<c]
          = map (\<lambda>j. map (\<lambda>i. gram_entry d c j i) [0..<c]) [0..<c]"
    by (intro map_cong refl) (simp add: nth_concat_table gram_entry_sym)
  then have "concat (map (\<lambda>j. map (\<lambda>i. ?tab ! (i * c + j)) [0..<c]) [0..<c]) = ?tab"
    by (rule arg_cong)
  then show ?thesis
    by (simp add: symmetric_def tf_transpose_def)
qed

lemma gram_table_psd:
  "positive_semidefinite \<lparr>shape = [c, c],
              data = concat (map (\<lambda>i. map (\<lambda>j. gram_entry d c i j) [0..<c]) [0..<c])\<rparr>"
proof -
  let ?tab = "concat (map (\<lambda>i. map (\<lambda>j. gram_entry d c i j) [0..<c]) [0..<c])"
  let ?L = "{..<length d div c}"
  have "0 \<le> (\<Sum>i<c. \<Sum>j<c. v ! i * ?tab ! (i * c + j) * v ! j)" for v :: "real list"
  proof -
    have "(\<Sum>i<c. \<Sum>j<c. v ! i * ?tab ! (i * c + j) * v ! j)
            = (\<Sum>i<c. \<Sum>j<c. v ! i * (\<Sum>l\<in>?L. d ! (l * c + i) * d ! (l * c + j)) * v ! j)"
      by (intro sum.cong refl) (simp add: nth_concat_table gram_entry_def sum_list_upt_sum)
    also have "\<dots> = (\<Sum>l\<in>?L. (\<Sum>i<c. v ! i * d ! (l * c + i))\<^sup>2)"
      by (rule quadratic_form_sum_squares)
    also have "0 \<le> \<dots>"
      by (intro sum_nonneg) simp
    finally show ?thesis .
  qed
  then show ?thesis
    by (simp add: positive_semidefinite_def)
qed

lemma gram_matrix_symmetric_psd:
  assumes "shape t = [n, h, w, c]" and "wf_tensor t" and "0 < c"
  shows "\<exists>m mt g. tf_reshape_rows t c = Some m \<and> shape m = [n * h * w, c] \<and> data m = data t
           \<and> tf_transpose m = Some mt \<and> tf_matmul mt m = Some g
           \<and> gram_matrix t = Some g \<and> shape g = [c, c] \<and> wf_tensor g
           \<and> symmetric g \<and> positive_semidefinite g"
proof -
  let ?g = "\<lparr>shape = [c, c],
             data = concat (map (\<lambda>i. map (\<lambda>j. gram_entry (data t) c i j) [0..<c]) [0..<c])\<rparr>"
  have len: "length (data t) = n * h * w * c"
    using assms(1,2) by (simp add: wf_tensor_def)
  have d3: "dim t 3 = Some c"
    using assms(1) by (simp add: dim_def)
  have dvd: "c dvd length (data t)"
    by (simp add: len)
  have g: "gram_matrix t = Some ?g"
    using d3 assms(3) dvd by (rule gram_matrix_entries)
  have resh: "tf_reshape_rows t c = Some \<lparr>shape = [n * h * w, c], data = data t\<rparr>"
    using assms(3) by (simp add: tf_reshape_rows_def len)
  obtain mt where mt: "tf_transpose \<lparr>shape = [n * h * w, c], data = data t\<rparr> = Some mt"
    by (simp add: tf_transpose_def)
  have mm: "tf_matmul mt \<lparr>shape = [n * h * w, c], data = data t\<rparr> = Some ?g"
    using g d3 by (simp add: gram_matrix_def resh mt)
  have wf: "wf_tensor ?g"
    by (simp add: wf_tensor_def length_concat_table)
  show ?thesis
    using resh mt mm g wf gram_table_symmetric gram_table_psd
    by (intro exI[of _ "\<lparr>shape = [n * h * w, c], data = data t\<rparr>"] exI[of _ mt] exI[of _ ?g]) simp
qed

lemma block_index_less:
  fixes a b :: nat
  assumes "a < n" and "b < k"
  shows "a * k + b < n * k"
proof -
  have "a * k + b < Suc a * k" using assms(2) by simp
  also have "\<dots> \<le> n * k" using assms(1) by (intro mult_le_mono1) simp
  finally show ?thesis .
qed

lemma perm_nth_less:
  assumes "is_permutation perm k" and "b < k"
  shows "perm ! b < k"
proof -
  have "b < length perm" and st: "set perm = {..<k}"
    using assms by (simp_all add: is_permutation_def)
  then have "perm ! b \<in> set perm"
    by (intro nth_mem)
  then show ?thesis
    unfolding st by simp
qed

lemma moved_row_less:
  assumes "is_permutation perm k" and "r < n * k"
  shows "moved_row perm k r < n * k"
proof -
  have k: "0 < k" using assms(2) by (cases k) simp_all
  have "r div k < n"
    using assms(2) k by (simp add: less_mult_imp_div_less)
  moreover have "perm ! (r mod k) < k"
    using assms(1) k by (intro perm_nth_less) simp_all
  ultimately show ?thesis
    unfolding moved_row_def by (rule block_index_less)
qed

lemma moved_row_inj:
  assumes "is_permutation perm k" and "0 < k"
  shows "inj_on (moved_row perm k) A"
proof (rule inj_onI)
  fix x y
  assume eq: "moved_row perm k x = moved_row perm k y"
  have px: "perm ! (x mod k) < k" and py: "perm ! (y mod k) < k"
    using assms by (simp_all add: perm_nth_less)
  have "moved_row perm k x div k = x div k" "moved_row perm k y div k = y div k"
    using px py assms(2) by (simp_all add: moved_row_def)
  with eq have dv: "x div k = y div k" by simp
  have "moved_row perm k x mod k = perm ! (x mod k)" "moved_row perm k y mod k = perm ! (y mod k)"
    using px py by (simp_all add: moved_row_def)
  with eq have "perm ! (x mod k) = perm ! (y mod k)" by simp
  moreover have "distinct perm" "x mod k < length perm" "y mod k < length perm"
    using assms by (simp_all add: is_permutation_def)
  ultimately have md: "x mod k = y mod k"
    by (simp add: nth_eq_iff_index_eq)
  show "x = y"
    using dv md by (metis div_mult_mod_eq)
qed

lemma moved_row_bij:
  assumes "is_permutation perm k"
  shows "bij_betw (moved_row perm k) {..<n * k} {..<n * k}"
proof (cases "k = 0")
  case True
  then show ?thesis by (simp add: bij_betw_def)
next
  case False
  then have inj: "inj_on (moved_row perm k) {..<n * k}"
    using assms by (intro moved_row_inj) simp_all
  have sub: "moved_row perm k ` {..<n * k} \<subseteq> {..<n * k}"
    using assms by (auto simp: moved_row_less)
  have "moved_row perm k ` {..<n * k} = {..<n * k}"
    using sub inj by (intro endo_inj_surj) simp_all
  with inj show ?thesis by (simp add: bij_betw_def)
qed

lemma spatial_permute_shape: "shape (spatial_permute perm t) = shape t"
  by (simp add: spatial_permute_def split: list.splits)

lemma spatial_permute_length: "length (data (spatial_permute perm t)) = length (data t)"
  by (simp add: spatial_permute_def split: list.splits)

lemma spatial_permute_nth:
  assumes "shape t = [n, h, w, c]" and "r * c + k < length (data t)" and "k < c"
  shows "data (spatial_permute perm t) ! (r * c + k)
           = data t ! (moved_row perm (h * w) r * c + k)"
  using assms by (simp add: spatial_permute_def moved_row_def Let_def)

lemma gram_entry_spatial_permute:
  assumes sh: "shape t = [n, h, w, c]" and wf: "wf_tensor t" and c: "0 < c"
    and perm: "is_permutation perm (h * w)" and i: "i < c" and j: "j < c"
  shows "gram_entry (data (spatial_permute perm t)) c i j = gram_entry (data t) c i j"
proof -
  let ?d = "data t" and ?d' = "data (spatial_permute perm t)"
  let ?k = "h * w"
  let ?\<sigma> = "moved_row perm ?k"
  have len: "length ?d = (n * ?k) * c"
    using sh wf by (simp add: wf_tensor_def mult.assoc)
  have rows: "length ?d div c = n * ?k"
    using c by (simp add: len)
  have nth: "?d' ! (l * c + m) = ?d ! (?\<sigma> l * c + m)" if "l < n * ?k" and "m < c" for l m
  proof -
    have "l * c + m < length ?d"
      unfolding len using that by (rule block_index_less)
    then show ?thesis
      using sh that(2) by (intro spatial_permute_nth)
  qed
  have "gram_entry ?d' c i j = (\<Sum>l<n * ?k. ?d' ! (l * c + i) * ?d' ! (l * c + j))"
    by (simp add: gram_entry_def spatial_permute_length rows sum_list_upt_sum)
  also have "\<dots> = (\<Sum>l<n * ?k. ?d ! (?\<sigma> l * c + i) * ?d ! (?\<sigma> l * c + j))"
    by (intro sum.cong refl) (simp add: nth i j)
  also have "\<dots> = (\<Sum>l<n * ?k. ?d ! (l * c + i) * ?d ! (l * c + j))"
    using moved_row_bij [OF perm, of n]
    by (rule sum.reindex_bij_betw [of ?\<sigma> _ _ "\<lambda>l. ?d ! (l * c + i) * ?d ! (l * c + j)"])
  also have "\<dots> = gram_entry ?d c i j"
    by (simp add: gram_entry_def rows sum_list_upt_sum)
  finally show ?thesis .
qed

lemma gram_matrix_spatial_permute:
  assumes sh: "shape t = [n, h, w, c]" and wf: "wf_tensor t"
    and perm: "is_permutation perm (h * w)"
  shows "gram_matrix (spatial_permute perm t) = gram_matrix t"
proof (cases "c = 0")
  case True
  then show ?thesis
    using sh by (simp add: gram_matrix_def dim_def spatial_permute_shape tf_reshape_rows_def)
next
  case False
  then have c: "0 < c" by simp
  let ?t' = "spatial_permute perm t"
  have dvd: "c dvd length (data t)"
    using sh wf by (simp add: wf_tensor_def)
  have d3: "dim t 3 = Some c" "dim ?t' 3 = Some c"
    using sh by (simp_all add: dim_def spatial_permute_shape)
  have "map (\<lambda>i. map (\<lambda>j. gram_entry (data ?t') c i j) [0..<c]) [0..<c]
          = map (\<lambda>i. map (\<lambda>j. gram_entry (data t) c i j) [0..<c]) [0..<c]"
    using sh wf c perm by (intro map_cong refl) (simp add: gram_entry_spatial_permute)
  then have tab: "concat (map (\<lambda>i. map (\<lambda>j. gram_entry (data ?t') c i j) [0..<c]) [0..<c])
          = concat (map (\<lambda>i. map (\<lambda>j. gram_entry (data t) c i j) [0..<c]) [0..<c])"
    by (rule arg_cong)
  have "gram_matrix ?t' = Some \<lparr>shape = [c, c],
          data = concat (map (\<lambda>i. map (\<lambda>j. gram_entry (data ?t') c i j) [0..<c]) [0..<c])\<rparr>"
    using d3(2) c dvd by (intro gram_matrix_entries) (simp_all add: spatial_permute_length)
  moreover have "gram_matrix t = Some \<lparr>shape = [c, c],
          data = concat (map (\<lambda>i. map (\<lambda>j. gram_entry (data t) c i j) [0..<c]) [0..<c])\<rparr>"
    using d3(1) c dvd by (rule gram_matrix_entries)
  ultimately show ?thesis
    by (simp only: tab)
qed

lemma dim_spatial_permute: "dim (spatial_permute perm t) k = dim t k"
  by (simp add: dim_def spatial_permute_shape)

lemma style_loss_spatial_permutation:
  assumes "shape t = [n, h, w, c]" and "wf_tensor t" and "is_permutation perm (h * w)"
  shows "gram_matrix (spatial_permute perm t) = gram_matrix t
    \<and> (\<forall>S X layer. X layer = Some t \<longrightarrow>
          style_loss S (X(layer \<mapsto> spatial_permute perm t)) layer = style_loss S X layer)
    \<and> (\<forall>S X layer. S layer = Some t \<longrightarrow>
          style_loss (S(layer \<mapsto> spatial_permute perm t)) X layer = style_loss S X layer)"
proof -
  have g: "gram_matrix (spatial_permute perm t) = gram_matrix t"
    using assms by (rule gram_matrix_spatial_permute)
  show ?thesis
    by (simp add: g style_loss_def dim_spatial_permute)
qed

subsection \<open>The total loss\<close>

lemma losses_Some_iff:
  "losses P S X img = Some ls \<longleftrightarrow>
     (\<exists>c s1 s2 s3 s4 tv.
        content_loss P X ''Mixed_4b'' = Some c
      \<and> style_loss S X ''Conv2d_1a_7x7'' = Some s1
      \<and> style_loss S X ''Conv2d_2c_3x3'' = Some s2
      \<and> style_loss S X ''Mixed_3b'' = Some s3
      \<and> style_loss S X ''Mixed_4d'' = Some s4
      \<and> total_variation_loss_lX img = Some tv
      \<and> ls = [cl * 1 * c, sl * 1 * s1, sl * 1 * s2, sl * 10 * s3, sl * 10 * s4, vp * 1 * tv])"
  unfolding losses_def by (auto simp: bind_eq_Some_conv)

text \<open>
  C8: the total loss is the weighted sum of exactly six terms: the content loss on
  \<open>Mixed_4b\<close> (weight 10), the style losses on the four style layers \<open>Conv2d_1a_7x7\<close>,
  \<open>Conv2d_2c_3x3\<close>, \<open>Mixed_3b\<close> and \<open>Mixed_4d\<close> (weights 2000000, 2000000, 20000000 and
  20000000) and the total-variation penalty on the image (weight 1/100000); it is
  defined exactly when the six terms are.
\<close>

theorem total_loss_weighted_sum:
  "total_loss P S X img = Some L \<longleftrightarrow>
     (\<exists>c s1 s2 s3 s4 tv.
        content_loss P X ''Mixed_4b'' = Some c
      \<and> style_loss S X ''Conv2d_1a_7x7'' = Some s1
      \<and> style_loss S X ''Conv2d_2c_3x3'' = Some s2
      \<and> style_loss S X ''Mixed_3b'' = Some s3
      \<and> style_loss S X ''Mixed_4d'' = Some s4
      \<and> total_variation_loss_lX img = Some tv
      \<and> L = 10 * c + 2000000 * s1 + 2000000 * s2 + 20000000 * s3 + 20000000 * s4
               + tv / 100000)"
  unfolding total_loss_def map_option_eq_Some losses_Some_iff
  by (auto simp: cl_def sl_def vp_def)

lemma content_loss_example:
  "content_loss (\<lambda>l. Some \<lparr>shape = [1, 1, 1, 1], data = [0]\<rparr>)
     (\<lambda>l. Some \<lparr>shape = [1, 1, 1, 1], data = [2]\<rparr>) l = Some 2"
  by (simp add: content_loss_def t_sub_def elementwise_def same_shape_def
      tf_reduce_mean_def tf_square_def)

lemma style_loss_example:
  "style_loss (\<lambda>l. Some \<lparr>shape = [1, 1, 1, 1], data = [1]\<rparr>)
     (\<lambda>l. Some \<lparr>shape = [1, 1, 1, 1], data = [2]\<rparr>) l = Some (9 / 4)"
  by (simp add: style_loss_def gram_matrix_def dim_def tf_reshape_rows_def tf_transpose_def
      tf_matmul_def t_sub_def elementwise_def same_shape_def tf_reduce_mean_def tf_square_def
      dim_square_def)

lemma total_variation_example:
  "total_variation_loss_lX \<lparr>shape = [2, 2, 1], data = [1, 1, 1, 1]\<rparr> = Some 0"
  by (simp add: total_variation_loss_lX_def at3_def upt_rec [of _ "numeral _"]
      upt_rec [of _ "Suc _"])

theorem total_loss_weighted_sum_witness:
  "total_loss (\<lambda>l. Some \<lparr>shape = [1, 1, 1, 1], data = [0]\<rparr>)
     (\<lambda>l. Some \<lparr>shape = [1, 1, 1, 1], data = [1]\<rparr>)
     (\<lambda>l. Some \<lparr>shape = [1, 1, 1, 1], data = [2]\<rparr>)
     \<lparr>shape = [2, 2, 1], data = [1, 1, 1, 1]\<rparr> = Some 99000020"
  unfolding total_loss_weighted_sum content_loss_example style_loss_example
    total_variation_example
  by (rule exI [of _ 2], rule exI [of _ "9 / 4"], rule exI [of _ "9 / 4"],
      rule exI [of _ "9 / 4"], rule exI [of _ "9 / 4"], rule exI [of _ 0]) simp

subsection \<open>The Reptile loop\<close>

lemma example_library_ok: "library_ok example_library"
  by (simp add: library_ok_def example_library_def list_all_iff case_prod_unfold comp_def)

lemma signature_length: "signature A = signature B \<Longrightarrow> length A = length B"
  unfolding signature_def by (rule map_eq_imp_length_eq)

lemma signature_keys: "signature A = signature B \<Longrightarrow> map fst A = map fst B"
proof -
  assume "signature A = signature B"
  then have "map fst (signature A) = map fst (signature B)" by simp
  then show ?thesis
    by (simp add: signature_def case_prod_unfold comp_def)
qed

lemma signature_nth:
  assumes "signature A = signature B" and "i < length B"
  shows "fst (A ! i) = fst (B ! i) \<and> same_shape (snd (A ! i)) (snd (B ! i))"
proof -
  have len: "length A = length B"
    using assms(1) by (rule signature_length)
  have "signature A ! i = signature B ! i"
    using assms(1) by simp
  then show ?thesis
    using assms(2) len by (simp add: signature_def case_prod_unfold same_shape_def)
qed

lemma same_shape_refl: "same_shape a a"
  by (simp add: same_shape_def)

lemma same_shape_sym: "same_shape a b \<Longrightarrow> same_shape b a"
  by (simp add: same_shape_def)

lemma map_of_nth:
  assumes "distinct (map fst W)" and "i < length W"
  shows "map_of W (fst (W ! i)) = Some (snd (W ! i))"
  using assms by (intro map_of_is_SomeI) simp_all

lemma for_each_list_all2:
  assumes "list_all2 (\<lambda>x y. f x = Some (g x y)) xs ys"
  shows "for_each f xs = Some (map2 g xs ys)"
  using assms by (induction rule: list_all2_induct) simp_all

lemma lerp_entries:
  "map2 (\<lambda>u v. u + v) bs (map (\<lambda>u. u * s) (map2 (\<lambda>u v. u - v) as bs))
     = map2 (\<lambda>u v. u + s * (v - u)) bs (as :: real list)"
  by (induction bs as rule: list_induct2') (simp_all add: mult.commute)

lemma interpolate_entry:
  assumes "same_shape a b"
  shows "do { d \<leftarrow> t_sub a b; v \<leftarrow> t_add b (t_scale d s); Some (name, v) }
           = Some (name, lerp b a s)"
proof -
  have len: "length (data a) = length (data b)" and sh: "shape a = shape b"
    using assms by (simp_all add: same_shape_def)
  have "t_sub a b = Some \<lparr>shape = shape a, data = map2 (\<lambda>u v. u - v) (data a) (data b)\<rparr>"
    using assms by (rule t_sub_same_shape)
  moreover have "t_add b \<lparr>shape = shape a,
                   data = map (\<lambda>u. u * s) (map2 (\<lambda>u v. u - v) (data a) (data b))\<rparr>
                   = Some (lerp b a s)"
    using len sh by (simp add: t_add_def elementwise_def same_shape_def lerp_def lerp_entries del: map_map)
  ultimately show ?thesis
    by (simp add: t_scale_def)
qed


lemma interpolate_Some:
  assumes "distinct (map fst wa)" and "signature wa = signature wb"
  shows "interpolate wb wa s = Some (map2 (lerp_named s) wb wa)"
proof -
  have "list_all2 (\<lambda>x y. interpolate_one wa s x = Some (lerp_named s x y)) wb wa"
    unfolding list_all2_conv_all_nth
  proof (intro conjI allI impI)
    show len: "length wb = length wa"
      using assms(2) [symmetric] by (rule signature_length)
    fix i
    assume i: "i < length wb"
    obtain name b where wb: "wb ! i = (name, b)" by (cases "wb ! i")
    obtain name' a where wa: "wa ! i = (name', a)" by (cases "wa ! i")
    have "fst (wa ! i) = fst (wb ! i) \<and> same_shape (snd (wa ! i)) (snd (wb ! i))"
      using assms(2) i by (rule signature_nth)
    then have nm: "name' = name" and ss: "same_shape a b"
      by (simp_all add: wb wa)
    have "map_of wa (fst (wa ! i)) = Some (snd (wa ! i))"
      using assms(1) i len by (intro map_of_nth) simp_all
    then have "map_of wa name = Some a"
      by (simp add: wa nm)
    then show "interpolate_one wa s (wb ! i) = Some (lerp_named s (wb ! i) (wa ! i))"
      using interpolate_entry [OF ss, of s name] by (simp add: wb wa interpolate_one_def lerp_named_def)
  qed
  then have "for_each (interpolate_one wa s) wb = Some (map2 (lerp_named s) wb wa)"
    by (rule for_each_list_all2)
  then show ?thesis
    by (simp only: interpolate_def interpolate_one_def)
qed

lemma keep_names:
  assumes "map fst W = map fst d"
  shows "map2 (\<lambda>(name, param) (name', v). (name, v)) W d = d"
proof -
  have "length W = length d"
    using assms by (rule map_eq_imp_length_eq)
  then show ?thesis
    using assms by (induction W d rule: list_induct2) auto
qed

lemma load_state_dict_Some:
  assumes "signature d = signature W" and "distinct (map fst d)"
  shows "load_state_dict W d = Some d"
proof -
  have keys: "map fst d = map fst W"
    using assms(1) by (rule signature_keys)
  have "list_all2 (\<lambda>x y. (case x of (name, param) \<Rightarrow> do {
                              v \<leftarrow> map_of d name;
                              if same_shape v param then Some (name, v) else None
                            }) = Some ((case x of (name, param) \<Rightarrow> \<lambda>(name', v). (name, v)) y)) W d"
    unfolding list_all2_conv_all_nth
  proof (intro conjI allI impI)
    show len: "length W = length d"
      using assms(1) [symmetric] by (rule signature_length)
    fix i
    assume i: "i < length W"
    obtain name p where W: "W ! i = (name, p)" by (cases "W ! i")
    obtain name' v where d: "d ! i = (name', v)" by (cases "d ! i")
    have "fst (d ! i) = fst (W ! i) \<and> same_shape (snd (d ! i)) (snd (W ! i))"
      using assms(1) i by (rule signature_nth)
    then have nm: "name' = name" and ss: "same_shape v p"
      by (simp_all add: W d)
    have "map_of d (fst (d ! i)) = Some (snd (d ! i))"
      using assms(2) i len by (intro map_of_nth) simp_all
    then have "map_of d name = Some v"
      by (simp add: d nm)
    then show "(case W ! i of (name, param) \<Rightarrow> do {
                              v \<leftarrow> map_of d name;
                              if same_shape v param then Some (name, v) else None
                            }) = Some ((case W ! i of (name, param) \<Rightarrow> \<lambda>(name', v). (name, v)) (d ! i))"
      using ss by (simp add: W d)
  qed
  then have "for_each (\<lambda>(name, param). do {
                              v \<leftarrow> map_of d name;
                              if same_shape v param then Some (name, v) else None
                            }) W = Some (map2 (\<lambda>(name, param) (name', v). (name, v)) W d)"
    by (rule for_each_list_all2)
  then show ?thesis
    using keys by (simp add: load_state_dict_def keep_names)
qed


lemma sgd_updates_ok:
  assumes "length W = length g"
    and "map (\<lambda>t. (shape t, length (data t))) g = map (\<lambda>(name, t). (shape t, length (data t))) W"
  shows "\<exists>W'. for_each (\<lambda>((name, param), param_grad).
                    map_option (Pair name) (t_sub param (t_scale param_grad lr))) (zip W g) = Some W'
              \<and> signature W' = signature W"
  using assms
proof (induction W g rule: list_induct2)
  case Nil
  then show ?case by (simp add: signature_def)
next
  case (Cons x W y g)
  obtain name p where x: "x = (name, p)" by (cases x)
  from Cons.prems have hd: "shape y = shape p" "length (data y) = length (data p)"
    and tl: "map (\<lambda>t. (shape t, length (data t))) g
               = map (\<lambda>(name, t). (shape t, length (data t))) W"
    by (simp_all add: x)
  from Cons.IH [OF tl] obtain W' where
    W': "for_each (\<lambda>((name, param), param_grad).
                    map_option (Pair name) (t_sub param (t_scale param_grad lr))) (zip W g) = Some W'"
    and sig: "signature W' = signature W"
    by blast
  have "same_shape p (t_scale y lr)"
    using hd by (simp add: same_shape_def t_scale_def)
  then have sub: "t_sub p (t_scale y lr)
      = Some \<lparr>shape = shape p, data = map2 (\<lambda>u v. u - v) (data p) (data (t_scale y lr))\<rparr>"
    by (rule t_sub_same_shape)
  have len: "length (data (t_scale y lr)) = length (data p)"
    using hd by (simp add: t_scale_def)
  show ?case
    using W' sig len by (simp add: x sub signature_def)
qed

lemma train_current_model_on_batch_ok:
  assumes "library_ok lib"
  shows "\<exists>W'. train_current_model_on_batch lib hp W x y = Some W' \<and> signature W' = signature W"
proof -
  let ?g = "grad lib W x y"
  have shapes: "map (\<lambda>t. (shape t, length (data t))) ?g
                  = map (\<lambda>(name, t). (shape t, length (data t))) W"
    using assms by (simp add: library_ok_def)
  then have "length ?g = length W"
    by (rule map_eq_imp_length_eq)
  then show ?thesis
    using sgd_updates_ok [of W ?g "inner_stepsize hp"] shapes
    by (simp add: train_current_model_on_batch_def)
qed

lemma train_steps_ok:
  assumes "library_ok lib"
  shows "\<exists>W'. train_steps lib hp x y n W = Some W' \<and> signature W' = signature W"
proof (induction n arbitrary: W)
  case 0
  then show ?case by simp
next
  case (Suc n)
  obtain W1 where W1: "train_current_model_on_batch lib hp W x y = Some W1"
    and s1: "signature W1 = signature W"
    using train_current_model_on_batch_ok [OF assms] by blast
  obtain W2 where "train_steps lib hp x y n W1 = Some W2" and "signature W2 = signature W1"
    using Suc.IH by blast
  then show ?case
    using W1 s1 by simp
qed

lemma take_rows_ok:
  assumes "list_all (\<lambda>i. i < length xs) inds"
  shows "\<exists>b. take_rows xs (take k (drop m inds)) = Some b"
proof -
  have "set (take k (drop m inds)) \<subseteq> set inds"
    by (meson set_take_subset set_drop_subset subset_trans)
  then have "list_all (\<lambda>i. i < length xs) (take k (drop m inds))"
    using assms by (auto simp: list_all_iff)
  then show ?thesis
    by (simp add: take_rows_def)
qed

lemma train_batches_ok:
  assumes "library_ok lib" and "list_all (\<lambda>i. i < length x_all) inds"
    and "length y_all = length x_all"
  shows "\<exists>W'. train_batches lib hp y_all inds starts W = Some W' \<and> signature W' = signature W"
proof (induction starts arbitrary: W)
  case Nil
  then show ?case by simp
next
  case (Cons start starts)
  let ?bi = "take (inner_batchsize hp) (drop start inds)"
  obtain xb where xb: "take_rows x_all ?bi = Some xb"
    using take_rows_ok [OF assms(2)] by blast
  obtain yb where yb: "take_rows y_all ?bi = Some yb"
    using take_rows_ok [of y_all inds] assms(2,3) by auto
  obtain W1 where W1: "train_current_model_on_batch lib hp W xb yb = Some W1"
    and s1: "signature W1 = signature W"
    using train_current_model_on_batch_ok [OF assms(1)] by blast
  obtain W2 where "train_batches lib hp y_all inds starts W1 = Some W2"
    and "signature W2 = signature W1"
    using Cons.IH by blast
  then show ?case
    using xb yb W1 s1 by simp
qed

lemma train_epochs_ok:
  assumes "library_ok lib" and "list_all (\<lambda>i. i < length x_all) inds"
    and "length y_all = length x_all" and "0 < inner_batchsize hp"
  shows "\<exists>W'. train_epochs lib hp y_all inds n W = Some W' \<and> signature W' = signature W"
proof (induction n arbitrary: W)
  case 0
  then show ?case by simp
next
  case (Suc n)
  obtain starts where st: "py_range_step (length x_all) (inner_batchsize hp) = Some starts"
    using assms(4) by (simp add: py_range_step_def)
  obtain W1 where W1: "train_batches lib hp y_all inds starts W = Some W1"
    and s1: "signature W1 = signature W"
    using train_batches_ok [OF assms(1,2,3)] by blast
  obtain W2 where "train_epochs lib hp y_all inds n W1 = Some W2"
    and "signature W2 = signature W1"
    using Suc.IH by blast
  then show ?case
    using st W1 s1 by simp
qed

lemma plot_branch_restores:
  assumes "library_ok lib" and "distinct (map fst W)"
  shows "plot_branch lib hp f_plot xtrain_plot W = Some W"
proof -
  obtain W' where W': "train_steps lib hp xtrain_plot (map f_plot xtrain_plot) 32 W = Some W'"
    and sig: "signature W' = signature W"
    using train_steps_ok [OF assms(1)] by blast
  have "load_state_dict W' W = Some W"
    using sig [symmetric] assms(2) by (rule load_state_dict_Some)
  then show ?thesis
    using W' by (simp add: plot_branch_def)
qed


lemma keys_lerp:
  assumes "length wb = length wa"
  shows "map fst (map2 (lerp_named s) wb wa) = map fst wb"
  using assms by (induction wb wa rule: list_induct2) (auto simp: lerp_named_def)

lemma signature_lerp:
  assumes "signature wa = signature wb"
  shows "signature (map2 (lerp_named s) wb wa) = signature wb"
proof (rule nth_equalityI)
  have len: "length wa = length wb"
    using assms by (rule signature_length)
  then show "length (signature (map2 (lerp_named s) wb wa)) = length (signature wb)"
    by (simp add: signature_def)
  fix i
  assume "i < length (signature (map2 (lerp_named s) wb wa))"
  then have i: "i < length wb"
    using len by (simp add: signature_def)
  have ss: "same_shape (snd (wa ! i)) (snd (wb ! i))"
    using signature_nth [OF assms i] by simp
  obtain name b where wb: "wb ! i = (name, b)" by (cases "wb ! i")
  obtain name' a where wa: "wa ! i = (name', a)" by (cases "wa ! i")
  show "signature (map2 (lerp_named s) wb wa) ! i = signature wb ! i"
    using i len ss by (simp add: signature_def wb wa lerp_named_def lerp_def same_shape_def)
qed

lemma map_of_lerp:
  assumes "distinct (map fst wb)" and "signature wa = signature wb"
    and "map_of wb name = Some b"
  shows "\<exists>a. map_of wa name = Some a
           \<and> map_of (map2 (lerp_named s) wb wa) name = Some (lerp b a s)"
proof -
  let ?R = "map2 (lerp_named s) wb wa"
  have len: "length wa = length wb"
    using assms(2) by (rule signature_length)
  have keys: "map fst wa = map fst wb"
    using assms(2) by (rule signature_keys)
  have "(name, b) \<in> set wb"
    using assms(3) by (rule map_of_SomeD)
  then obtain i where i: "i < length wb" and wb: "wb ! i = (name, b)"
    by (auto simp: in_set_conv_nth)
  obtain name' a where wa: "wa ! i = (name', a)" by (cases "wa ! i")
  have "fst (wa ! i) = fst (wb ! i)"
    using signature_nth [OF assms(2) i] by simp
  then have nm: "name' = name"
    by (simp add: wa wb)
  have "map_of wa (fst (wa ! i)) = Some (snd (wa ! i))"
    using assms(1) i len keys by (intro map_of_nth) simp_all
  then have a: "map_of wa name = Some a"
    by (simp add: wa nm)
  have "?R ! i = (name, lerp b a s)"
    using i len by (simp add: wb wa lerp_named_def)
  moreover have "i < length ?R"
    using i len by simp
  ultimately have "(name, lerp b a s) \<in> set ?R"
    by (metis nth_mem)
  moreover have "distinct (map fst ?R)"
    using assms(1) len by (simp only: keys_lerp [OF len [symmetric]])
  ultimately have "map_of ?R name = Some (lerp b a s)"
    by (intro map_of_is_SomeI)
  with a show ?thesis by blast
qed

lemma inner_training_ok:
  assumes "library_ok lib" and "0 < inner_batchsize hp"
  shows "\<exists>st1. inner_training lib hp st = Some st1
           \<and> signature (model st1) = signature (model st)"
proof -
  obtain f r1 where f: "gen_task lib (rng st) = (f, r1)"
    by (cases "gen_task lib (rng st)")
  obtain inds r2 where inds: "permutation lib r1 (length x_all) = (inds, r2)"
    by (cases "permutation lib r1 (length x_all)")
  have "list_all (\<lambda>i. i < length x_all) (fst (permutation lib r1 (length x_all)))"
    using assms(1) by (simp add: library_ok_def)
  then have ok: "list_all (\<lambda>i. i < length x_all) inds"
    by (simp add: inds)
  obtain W' where "train_epochs lib hp (map f x_all) inds (inner_epochs hp) (model st) = Some W'"
    and "signature W' = signature (model st)"
    using train_epochs_ok [OF assms(1) ok _ assms(2), of "map f x_all"] by auto
  then show ?thesis
    by (simp add: inner_training_def f inds)
qed

lemma reptile_iteration_result:
  assumes "library_ok lib" and "distinct (map fst (model st))"
    and "inner_training lib hp st = Some st1"
    and "signature (model st1) = signature (model st)"
  shows "reptile_iteration lib hp f_plot xtrain_plot outer_step st
           = Some (st1\<lparr>model := map2 (lerp_named (outer_stepsize hp outer_step)) (model st) (model st1)\<rparr>)
       \<and> interpolate (model st) (model st1) (outer_stepsize hp outer_step)
           = Some (map2 (lerp_named (outer_stepsize hp outer_step)) (model st) (model st1))"
proof -
  let ?s = "outer_stepsize hp outer_step"
  let ?new = "map2 (lerp_named ?s) (model st) (model st1)"
  have keys: "map fst (model st1) = map fst (model st)"
    using assms(4) by (rule signature_keys)
  then have d1: "distinct (map fst (model st1))"
    using assms(2) by simp
  have int: "interpolate (model st) (model st1) ?s = Some ?new"
    using d1 assms(4) by (rule interpolate_Some)
  have sig: "signature ?new = signature (model st1)"
    using signature_lerp [OF assms(4), of ?s] assms(4) by simp
  have dn: "distinct (map fst ?new)"
    using signature_keys [OF sig] d1 by simp
  have load: "load_state_dict (model st1) ?new = Some ?new"
    using sig dn by (rule load_state_dict_Some)
  have "plot_branch lib hp f_plot xtrain_plot ?new = Some ?new"
    using assms(1) dn by (rule plot_branch_restores)
  then show ?thesis
    using assms(3) int load by (simp add: reptile_iteration_def)
qed


lemma reptile_loop_append:
  "reptile_loop lib hp f_plot xtrain_plot (xs @ ys) st
     = reptile_loop lib hp f_plot xtrain_plot xs st \<bind> reptile_loop lib hp f_plot xtrain_plot ys"
proof (induction xs arbitrary: st)
  case Nil
  then show ?case by simp
next
  case (Cons outer_step xs)
  then show ?case
    by (cases "reptile_iteration lib hp f_plot xtrain_plot outer_step st") simp_all
qed

lemma reptile_iteration_ok:
  assumes "library_ok lib" and "0 < inner_batchsize hp" and "distinct (map fst (model st))"
  shows "\<exists>st'. reptile_iteration lib hp f_plot xtrain_plot outer_step st = Some st'
           \<and> signature (model st') = signature (model st)"
proof -
  obtain st1 where st1: "inner_training lib hp st = Some st1"
    and sig: "signature (model st1) = signature (model st)"
    using inner_training_ok [OF assms(1,2)] by blast
  show ?thesis
    using reptile_iteration_result [OF assms(1,3) st1 sig] signature_lerp [OF sig]
    by simp
qed

lemma reptile_loop_ok:
  assumes "library_ok lib" and "0 < inner_batchsize hp" and "distinct (map fst (model st0))"
  shows "\<exists>st. reptile_loop lib hp f_plot xtrain_plot [0..<k] st0 = Some st
           \<and> signature (model st) = signature (model st0)"
proof (induction k)
  case 0
  then show ?case by simp
next
  case (Suc k)
  then obtain st where st: "reptile_loop lib hp f_plot xtrain_plot [0..<k] st0 = Some st"
    and sig: "signature (model st) = signature (model st0)"
    by blast
  have "distinct (map fst (model st))"
    using signature_keys [OF sig] assms(3) by simp
  then obtain st' where "reptile_iteration lib hp f_plot xtrain_plot k st = Some st'"
    and "signature (model st') = signature (model st)"
    using reptile_iteration_ok [OF assms(1,2)] by blast
  then show ?case
    using st sig by (simp add: reptile_loop_append)
qed

text \<open>
  C1: in every outer iteration \<open>i\<close> of the Reptile loop, with \<open>W_before\<close> the parameters
  at the start of the iteration (\<open>model st\<close>), \<open>W_after\<close> the parameters after the inner
  training (\<open>model st1\<close>) and \<open>s\<close> the outer step size of the iteration, the parameters at
  the end of the iteration are, for every parameter name,
  \<open>W_before + s * (W_after - W_before)\<close>.
\<close>

theorem reptile_meta_update:
  assumes "library_ok lib" and "0 < inner_batchsize hp" and "distinct (map fst (model st0))"
    and "i < outer_steps hp"
  shows "\<exists>st st1 st'.
           reptile_loop lib hp f_plot xtrain_plot [0..<i] st0 = Some st
         \<and> inner_training lib hp st = Some st1
         \<and> reptile_iteration lib hp f_plot xtrain_plot i st = Some st'
         \<and> reptile_loop lib hp f_plot xtrain_plot [0..<Suc i] st0 = Some st'
         \<and> map fst (model st') = map fst (model st)
         \<and> (\<forall>name b. map_of (model st) name = Some b \<longrightarrow>
               (\<exists>a. map_of (model st1) name = Some a
                  \<and> map_of (model st') name = Some (lerp b a (outer_stepsize hp i))))"
proof -
  obtain st where st: "reptile_loop lib hp f_plot xtrain_plot [0..<i] st0 = Some st"
    and sig0: "signature (model st) = signature (model st0)"
    using reptile_loop_ok [OF assms(1,2,3)] by blast
  have d: "distinct (map fst (model st))"
    using signature_keys [OF sig0] assms(3) by simp
  obtain st1 where st1: "inner_training lib hp st = Some st1"
    and sig: "signature (model st1) = signature (model st)"
    using inner_training_ok [OF assms(1,2)] by blast
  let ?s = "outer_stepsize hp i"
  let ?st' = "st1\<lparr>model := map2 (lerp_named ?s) (model st) (model st1)\<rparr>"
  have it: "reptile_iteration lib hp f_plot xtrain_plot i st = Some ?st'"
    using reptile_iteration_result [OF assms(1) d st1 sig] by simp
  have loop: "reptile_loop lib hp f_plot xtrain_plot [0..<Suc i] st0 = Some ?st'"
    using st it by (simp add: reptile_loop_append)
  have keys: "map fst (model ?st') = map fst (model st)"
    using signature_keys [OF signature_lerp [OF sig, of ?s]] by simp
  have each: "\<forall>name b. map_of (model st) name = Some b \<longrightarrow>
               (\<exists>a. map_of (model st1) name = Some a
                  \<and> map_of (model ?st') name = Some (lerp b a ?s))"
    using map_of_lerp [OF d sig] by simp
  show ?thesis
    using st st1 it loop keys each by blast
qed

theorem reptile_meta_update_witness:
  "\<exists>st st1 st'.
       reptile_loop example_library notebook_hyper (\<lambda>x. sin x * 3) [0] [0..<0] example_notebook = Some st
     \<and> inner_training example_library notebook_hyper st = Some st1
     \<and> reptile_iteration example_library notebook_hyper (\<lambda>x. sin x * 3) [0] 0 st = Some st'
     \<and> reptile_loop example_library notebook_hyper (\<lambda>x. sin x * 3) [0] [0..<Suc 0] example_notebook
         = Some st'
     \<and> map fst (model st') = map fst (model st)
     \<and> (\<forall>name b. map_of (model st) name = Some b \<longrightarrow>
           (\<exists>a. map_of (model st1) name = Some a
              \<and> map_of (model st') name = Some (lerp b a (outer_stepsize notebook_hyper 0))))"
  using reptile_meta_update [of example_library notebook_hyper example_notebook 0 "\<lambda>x. sin x * 3" "[0]"]
    example_library_ok
  by (simp add: notebook_hyper_def example_notebook_def)

text \<open>
  C2: in outer iteration \<open>i\<close> of \<open>N = outer_steps\<close>, the meta-update interpolates with the
  step size \<open>outer_stepsize0 * (1 - i / N)\<close>.
\<close>

theorem outer_stepsize_used:
  assumes "library_ok lib" and "0 < inner_batchsize hp" and "distinct (map fst (model st0))"
    and "i < outer_steps hp"
  shows "\<exists>st st1 new.
           reptile_loop lib hp f_plot xtrain_plot [0..<i] st0 = Some st
         \<and> inner_training lib hp st = Some st1
         \<and> interpolate (model st) (model st1)
              (outer_stepsize0 hp * (1 - real i / real (outer_steps hp))) = Some new
         \<and> load_state_dict (model st1) new = Some new
         \<and> reptile_loop lib hp f_plot xtrain_plot [0..<Suc i] st0 = Some (st1\<lparr>model := new\<rparr>)"
proof -
  obtain st where st: "reptile_loop lib hp f_plot xtrain_plot [0..<i] st0 = Some st"
    and sig0: "signature (model st) = signature (model st0)"
    using reptile_loop_ok [OF assms(1,2,3)] by blast
  have d: "distinct (map fst (model st))"
    using signature_keys [OF sig0] assms(3) by simp
  obtain st1 where st1: "inner_training lib hp st = Some st1"
    and sig: "signature (model st1) = signature (model st)"
    using inner_training_ok [OF assms(1,2)] by blast
  let ?s = "outer_stepsize0 hp * (1 - real i / real (outer_steps hp))"
  let ?new = "map2 (lerp_named ?s) (model st) (model st1)"
  have s: "outer_stepsize hp i = ?s"
    by (simp add: outer_stepsize_def)
  note res = reptile_iteration_result [OF assms(1) d st1 sig, of f_plot xtrain_plot i, unfolded s]
  have signew: "signature ?new = signature (model st1)"
    using signature_lerp [OF sig, of ?s] sig by simp
  have "distinct (map fst ?new)"
    using signature_keys [OF signew] signature_keys [OF sig] d by simp
  with signew have load: "load_state_dict (model st1) ?new = Some ?new"
    by (rule load_state_dict_Some)
  have loop: "reptile_loop lib hp f_plot xtrain_plot [0..<Suc i] st0 = Some (st1\<lparr>model := ?new\<rparr>)"
    using st res by (simp add: reptile_loop_append)
  show ?thesis
    using st st1 res load loop by blast
qed

theorem outer_stepsize_used_witness:
  "\<exists>st st1 new.
       reptile_loop example_library notebook_hyper (\<lambda>x. sin x * 3) [0] [0..<3] example_notebook = Some st
     \<and> inner_training example_library notebook_hyper st = Some st1
     \<and> interpolate (model st) (model st1) (1 / 10 * (1 - 3 / 10000)) = Some new
     \<and> load_state_dict (model st1) new = Some new
     \<and> reptile_loop example_library notebook_hyper (\<lambda>x. sin x * 3) [0] [0..<Suc 3] example_notebook
         = Some (st1\<lparr>model := new\<rparr>)"
  using outer_stepsize_used [of example_library notebook_hyper example_notebook 3 "\<lambda>x. sin x * 3" "[0]"]
    example_library_ok
  by (simp add: notebook_hyper_def example_notebook_def)

text \<open>
  C3: for \<open>0 \<le> i \<le> N\<close> the outer step size does not increase with \<open>i\<close>, and at \<open>i = N\<close>
  it is exactly 0 (for an initial step size that is not negative, as the notebook's 0.1).
\<close>

theorem outer_stepsize_decays:
  assumes "0 \<le> outer_stepsize0 hp" and "0 < outer_steps hp" and "i \<le> j" and "j \<le> outer_steps hp"
  shows "outer_stepsize hp j \<le> outer_stepsize hp i \<and> outer_stepsize hp (outer_steps hp) = 0"
proof -
  have "real i / real (outer_steps hp) \<le> real j / real (outer_steps hp)"
    using assms(2,3) by (simp add: divide_right_mono)
  then have "1 - real j / real (outer_steps hp) \<le> 1 - real i / real (outer_steps hp)"
    by simp
  then have "outer_stepsize hp j \<le> outer_stepsize hp i"
    unfolding outer_stepsize_def using assms(1) by (rule mult_left_mono)
  moreover have "outer_stepsize hp (outer_steps hp) = 0"
    using assms(2) by (simp add: outer_stepsize_def)
  ultimately show ?thesis ..
qed


theorem outer_stepsize_decays_witness:
  "outer_stepsize notebook_hyper 5000 \<le> outer_stepsize notebook_hyper 2500
   \<and> outer_stepsize notebook_hyper (outer_steps notebook_hyper) = 0
   \<and> outer_stepsize notebook_hyper 2500 = 3 / 40"
  using outer_stepsize_decays [of notebook_hyper 2500 5000]
  by (simp add: notebook_hyper_def outer_stepsize_def)

lemma lerp_entries_same: "map2 (\<lambda>u v. u + s * (v - u)) xs xs = (xs :: real list)"
  by (induction xs) simp_all

lemma lerp_same: "lerp b b s = b"
  by (simp add: lerp_def lerp_entries_same)

lemma lerp_named_same: "map2 (lerp_named s) W W = W"
  by (induction W) (auto simp: lerp_named_def lerp_same)

text \<open>
  C5: with an inner epoch count of 0, whatever task is sampled, an outer iteration does
  no inner training step, the parameters after the meta-update are the initial ones, and
  the model's predictions on every input are unchanged.
\<close>

theorem zero_inner_epochs_unchanged:
  assumes "library_ok lib" and "distinct (map fst (model st))" and "inner_epochs hp = 0"
  shows "\<exists>st1 st'. inner_training lib hp st = Some st1 \<and> model st1 = model st
           \<and> reptile_iteration lib hp f_plot xtrain_plot outer_step st = Some st'
           \<and> model st' = model st
           \<and> (\<forall>x. predict_using_current_model lib (model st') x
                    = predict_using_current_model lib (model st) x)"
proof -
  obtain f r1 where f: "gen_task lib (rng st) = (f, r1)"
    by (cases "gen_task lib (rng st)")
  obtain inds r2 where inds: "permutation lib r1 (length x_all) = (inds, r2)"
    by (cases "permutation lib r1 (length x_all)")
  let ?st1 = "\<lparr>model = model st, rng = r2\<rparr>"
  have st1: "inner_training lib hp st = Some ?st1"
    using assms(3) by (simp add: inner_training_def f inds)
  have sig: "signature (model ?st1) = signature (model st)"
    by simp
  have "reptile_iteration lib hp f_plot xtrain_plot outer_step st
          = Some (?st1\<lparr>model := model st\<rparr>)"
    using reptile_iteration_result [OF assms(1,2) st1 sig, of f_plot xtrain_plot outer_step]
    by (simp add: lerp_named_same)
  with st1 show ?thesis by simp
qed

theorem zero_inner_epochs_unchanged_witness:
  "fst (gen_task example_library ()) = (\<lambda>x. sin (x + 0) * 3)
   \<and> (\<exists>st1 st'.
         inner_training example_library (notebook_hyper\<lparr>inner_epochs := 0\<rparr>) example_notebook = Some st1
       \<and> model st1 = model example_notebook
       \<and> reptile_iteration example_library (notebook_hyper\<lparr>inner_epochs := 0\<rparr>)
            (\<lambda>x. sin x * 3) [0] 0 example_notebook = Some st'
       \<and> model st' = model example_notebook
       \<and> (\<forall>x. predict_using_current_model example_library (model st') x
              = predict_using_current_model example_library (model example_notebook) x))"
proof -
  have "fst (gen_task example_library ()) = (\<lambda>x. sin (x + 0) * 3)"
    by (simp add: gen_task_def example_library_def)
  moreover have "distinct (map fst (model example_notebook))"
    by (simp add: example_notebook_def)
  moreover have "inner_epochs (notebook_hyper\<lparr>inner_epochs := 0\<rparr>) = 0"
    by simp
  ultimately show ?thesis
    using zero_inner_epochs_unchanged [OF example_library_ok, of example_notebook
        "notebook_hyper\<lparr>inner_epochs := 0\<rparr>" "\<lambda>x. sin x * 3" "[0]" 0]
    by blast
qed

text \<open>
  C9: the plotting branch leaves the model as it found it: the 32 training steps run,
  and loading the snapshot restores every parameter.
\<close>

theorem plot_branch_leaves_model:
  assumes "library_ok lib" and "distinct (map fst W)"
  shows "\<exists>W'. train_steps lib hp xtrain_plot (map f_plot xtrain_plot) 32 W = Some W'
           \<and> load_state_dict W' W = Some W
           \<and> plot_branch lib hp f_plot xtrain_plot W = Some W"
proof -
  obtain W' where W': "train_steps lib hp xtrain_plot (map f_plot xtrain_plot) 32 W = Some W'"
    and sig: "signature W' = signature W"
    using train_steps_ok [OF assms(1)] by blast
  have "load_state_dict W' W = Some W"
    using sig [symmetric] assms(2) by (rule load_state_dict_Some)
  moreover have "plot_branch lib hp f_plot xtrain_plot W = Some W"
    using assms by (rule plot_branch_restores)
  ultimately show ?thesis
    using W' by simp
qed

theorem plot_branch_leaves_model_witness:
  "train_current_model_on_batch example_library notebook_hyper (model example_notebook) [0] [0]
     = Some [(''0.weight'', \<lparr>shape = [1, 1], data = [49 / 50]\<rparr>),
             (''0.bias'', \<lparr>shape = [1], data = [49 / 25]\<rparr>)]
   \<and> (\<exists>W'. train_steps example_library notebook_hyper [0] (map (\<lambda>x. sin x * 3) [0]) 32
               (model example_notebook) = Some W'
         \<and> load_state_dict W' (model example_notebook) = Some (model example_notebook)
         \<and> plot_branch example_library notebook_hyper (\<lambda>x. sin x * 3) [0] (model example_notebook)
             = Some (model example_notebook))"
proof -
  have "train_current_model_on_batch example_library notebook_hyper (model example_notebook) [0] [0]
     = Some [(''0.weight'', \<lparr>shape = [1, 1], data = [49 / 50]\<rparr>),
             (''0.bias'', \<lparr>shape = [1], data = [49 / 25]\<rparr>)]"
    by (simp add: train_current_model_on_batch_def example_library_def example_notebook_def
        notebook_hyper_def t_sub_def t_scale_def elementwise_def same_shape_def)
  moreover have "distinct (map fst (model example_notebook))"
    by (simp add: example_notebook_def)
  ultimately show ?thesis
    using plot_branch_leaves_model [OF example_library_ok, of "model example_notebook"
        notebook_hyper "[0]" "\<lambda>x. sin x * 3"]
    by simp
qed

subsection \<open>Rounding to float32\<close>

lemma round32_0: "round32 0 = Some 0"
  unfolding round32_def Let_def by (simp add: ilog2.simps round_half_even_def Let_def)

lemma round32_1: "round32 1 = Some 1"
  unfolding round32_def Let_def by (simp add: ilog2.simps round_half_even_def Let_def)

lemma round32_example_values:
  "round32 100000000 = Some 100000000"
  "round32 (- 99999999) = Some (- 100000000)"
  "round32 (- 100000000) = Some (- 100000000)"
  unfolding round32_def Let_def by (simp_all add: ilog2.simps round_half_even_def Let_def)

lemma round32_overflow_example:
  "round32 (2 ^ 127) = Some (2 ^ 127)" "round32 (- (2 ^ 127)) = Some (- (2 ^ 127))"
  "round32 (2 * 2 ^ 127) = None"
  unfolding round32_def Let_def by (simp_all add: ilog2.simps round_half_even_def Let_def)

lemma round32_small_values:
  "round32 2 = Some 2" "round32 3 = Some 3" "round32 4 = Some 4" "round32 5 = Some 5"
  "round32 6 = Some 6" "round32 7 = Some 7" "round32 9 = Some 9" "round32 10 = Some 10"
  "round32 12 = Some 12" "round32 14 = Some 14" "round32 16 = Some 16" "round32 20 = Some 20"
  unfolding round32_def Let_def by (simp_all add: ilog2.simps round_half_even_def Let_def)

lemma round32_tie_values:
  "round32 4096 = Some 4096" "round32 16777216 = Some 16777216"
  "round32 16777217 = Some 16777216" "round32 16777218 = Some 16777218"
  unfolding round32_def Let_def by (simp_all add: ilog2.simps round_half_even_def Let_def)

lemma round32_near_one:
  "round32 (4097 / 4096) = Some (4097 / 4096)" "round32 (2049 / 2048) = Some (2049 / 2048)"
  "round32 (16785409 / 16777216) = Some (2049 / 2048)"
  unfolding round32_def Let_def by (simp_all add: ilog2.simps round_half_even_def Let_def)

lemmas unroll_upt = upt_rec [of _ "numeral _"] upt_rec [of _ "Suc _"]

subsection \<open>The meta-update in float32\<close>

lemma for_each_map_Some:
  assumes "\<And>x. x \<in> set xs \<Longrightarrow> f x = Some (g x)"
  shows "for_each f xs = Some (map g xs)"
  using assms by (induction xs) simp_all

lemma for_each_Some_nth:
  assumes "for_each f xs = Some ys"
  shows "length ys = length xs \<and> (\<forall>k<length xs. f (xs ! k) = Some (ys ! k))"
  using assms
proof (induction xs arbitrary: ys)
  case Nil
  then show ?case by simp
next
  case (Cons x xs)
  from Cons.prems obtain y ys' where y: "f x = Some y" and ys': "for_each f xs = Some ys'"
    and ys: "ys = y # ys'"
    by (auto simp: bind_eq_Some_conv)
  from Cons.IH [OF ys'] have len: "length ys' = length xs"
    and nth: "\<forall>k<length xs. f (xs ! k) = Some (ys' ! k)"
    by simp_all
  show ?case
  proof (intro conjI allI impI)
    show "length ys = length (x # xs)"
      using len ys by simp
    fix k
    assume "k < length (x # xs)"
    then show "f ((x # xs) ! k) = Some (ys ! k)"
      using y nth ys by (cases k) simp_all
  qed
qed

lemma sub32_scale0_add32:
  assumes ss: "same_shape a b" and fb: "finite32 b"
    and fin: "list_all (\<lambda>d. round32 d \<noteq> None) (map2 (\<lambda>v u. v - u) (data a) (data b))"
  shows "do { d \<leftarrow> t_sub32 a b; e \<leftarrow> t_scale32 d 0; v \<leftarrow> t_add32 b e; Some (name, v) }
           = Some (name, b)"
proof -
  have len: "length (data a) = length (data b)" and sh: "shape a = shape b"
    using ss by (simp_all add: same_shape_def)
  let ?ds = "map (\<lambda>(u, v). the (round32 (u - v))) (zip (data a) (data b))"
  have "for_each (\<lambda>(u, v). round32 (u - v)) (zip (data a) (data b)) = Some ?ds"
  proof (rule for_each_map_Some)
    fix x
    assume "x \<in> set (zip (data a) (data b))"
    then have "round32 (fst x - snd x) \<noteq> None"
      using fin by (auto simp: list_all_iff case_prod_unfold)
    then show "(case x of (u, v) \<Rightarrow> round32 (u - v)) = Some (case x of (u, v) \<Rightarrow> the (round32 (u - v)))"
      by (cases x) auto
  qed
  then have sub: "t_sub32 a b = Some \<lparr>shape = shape a, data = ?ds\<rparr>"
    using ss by (simp add: t_sub32_def elementwise32_def)
  have "for_each (\<lambda>u. round32 (u * 0)) ?ds = Some (map (\<lambda>u. 0 :: real) ?ds)"
    by (rule for_each_map_Some) (simp add: round32_0)
  then have scale: "t_scale32 \<lparr>shape = shape a, data = ?ds\<rparr> 0
                      = Some \<lparr>shape = shape a, data = map (\<lambda>u. 0 :: real) ?ds\<rparr>"
    by (simp add: t_scale32_def round32_0)
  have "for_each (\<lambda>(u, v). round32 (u + v)) (zip (data b) (map (\<lambda>u. 0 :: real) ?ds))
          = Some (map fst (zip (data b) (map (\<lambda>u. 0 :: real) ?ds)))"
  proof (rule for_each_map_Some)
    fix x
    assume x: "x \<in> set (zip (data b) (map (\<lambda>u. 0 :: real) ?ds))"
    obtain u v where uv: "x = (u, v)" by (cases x)
    have "u \<in> set (data b)"
      using x unfolding uv by (rule set_zip_leftD)
    then have ru: "round32 u = Some u"
      using fb by (simp add: finite32_def list_all_iff)
    have "v \<in> set (map (\<lambda>u. 0 :: real) ?ds)"
      using x unfolding uv by (rule set_zip_rightD)
    then have "v = 0" by auto
    then show "(case x of (u, v) \<Rightarrow> round32 (u + v)) = Some (fst x)"
      using ru by (simp add: uv)
  qed
  moreover have "map fst (zip (data b) (map (\<lambda>u. 0 :: real) ?ds)) = data b"
    using len by (simp add: zip_map2 comp_def case_prod_unfold map_fst_zip)
  ultimately have "t_add32 b \<lparr>shape = shape a, data = map (\<lambda>u. 0 :: real) ?ds\<rparr> = Some b"
    using len sh by (simp add: t_add32_def elementwise32_def same_shape_def)
  then show ?thesis
    by (simp add: sub scale)
qed

lemma sub32_scale1_add32:
  assumes ss: "same_shape a b" and fa: "finite32 a"
    and ex: "list_all (\<lambda>d. round32 d = Some d) (map2 (\<lambda>v u. v - u) (data a) (data b))"
  shows "do { d \<leftarrow> t_sub32 a b; e \<leftarrow> t_scale32 d 1; v \<leftarrow> t_add32 b e; Some (name, v) }
           = Some (name, a)"
proof -
  have len: "length (data a) = length (data b)" and sh: "shape a = shape b"
    using ss by (simp_all add: same_shape_def)
  let ?ds = "map2 (\<lambda>v u. v - u) (data a) (data b)"
  have exact: "round32 d = Some d" if "d \<in> set ?ds" for d
    using ex that by (auto simp: list_all_iff)
  have "for_each (\<lambda>(u, v). round32 (u - v)) (zip (data a) (data b))
          = Some (map (\<lambda>(u, v). u - v) (zip (data a) (data b)))"
  proof (rule for_each_map_Some)
    fix x
    assume "x \<in> set (zip (data a) (data b))"
    then have "(case x of (u, v) \<Rightarrow> u - v) \<in> set ?ds"
      by auto
    then have "round32 (case x of (u, v) \<Rightarrow> u - v) = Some (case x of (u, v) \<Rightarrow> u - v)"
      by (rule exact)
    then show "(case x of (u, v) \<Rightarrow> round32 (u - v)) = Some (case x of (u, v) \<Rightarrow> u - v)"
      by (cases x) simp
  qed
  then have sub: "t_sub32 a b = Some \<lparr>shape = shape a, data = ?ds\<rparr>"
    using ss by (simp add: t_sub32_def elementwise32_def)
  have "for_each (\<lambda>u. round32 (u * 1)) ?ds = Some (map (\<lambda>u. u) ?ds)"
    by (rule for_each_map_Some) (simp add: exact)
  then have scale: "t_scale32 \<lparr>shape = shape a, data = ?ds\<rparr> 1 = Some \<lparr>shape = shape a, data = ?ds\<rparr>"
    by (simp add: t_scale32_def round32_1)
  have "for_each (\<lambda>(u, v). round32 (u + v)) (zip (data b) ?ds)
          = Some (map (\<lambda>(u, d). u + d) (zip (data b) ?ds))"
  proof (rule for_each_map_Some)
    fix x
    assume x: "x \<in> set (zip (data b) ?ds)"
    obtain u d where ud: "x = (u, d)" by (cases x)
    from x obtain k where k: "k < length (zip (data b) ?ds)" and xk: "zip (data b) ?ds ! k = x"
      by (auto simp: in_set_conv_nth)
    have kb: "k < length (data b)"
      using k by simp
    have "u = data b ! k" and "d = data a ! k - data b ! k"
      using xk kb len by (simp_all add: ud)
    then have "u + d = data a ! k"
      by simp
    moreover have "data a ! k \<in> set (data a)"
      using kb len by simp
    ultimately have "round32 (u + d) = Some (u + d)"
      using fa by (simp add: finite32_def list_all_iff)
    then show "(case x of (u, v) \<Rightarrow> round32 (u + v)) = Some (case x of (u, d) \<Rightarrow> u + d)"
      by (simp add: ud)
  qed
  moreover have "map (\<lambda>(u, d). u + d) (zip (data b) ?ds) = data a"
    using len by (intro nth_equalityI) simp_all
  ultimately have "t_add32 b \<lparr>shape = shape a, data = ?ds\<rparr> = Some a"
    using len sh by (simp add: t_add32_def elementwise32_def same_shape_def)
  then show ?thesis
    by (simp add: sub scale)
qed

lemma paired_entry:
  assumes "distinct (map fst wb)" and "signature wa = signature wb" and "i < length wb"
  obtains name b a where "wb ! i = (name, b)" and "wa ! i = (name, a)"
    and "map_of wa name = Some a" and "same_shape a b"
    and "set (map2 (\<lambda>v u. v - u) (data a) (data b)) \<subseteq> set (differences wb wa)"
proof -
  obtain name b where wb: "wb ! i = (name, b)" by (cases "wb ! i")
  obtain name' a where wa: "wa ! i = (name', a)" by (cases "wa ! i")
  have len: "length wa = length wb"
    using assms(2) by (rule signature_length)
  have keys: "map fst wa = map fst wb"
    using assms(2) by (rule signature_keys)
  have "fst (wa ! i) = fst (wb ! i) \<and> same_shape (snd (wa ! i)) (snd (wb ! i))"
    using assms(2,3) by (rule signature_nth)
  then have nm: "name' = name" and ss: "same_shape a b"
    by (simp_all add: wb wa)
  have "map_of wa (fst (wa ! i)) = Some (snd (wa ! i))"
    using assms(1,3) len keys by (intro map_of_nth) simp_all
  then have look: "map_of wa name = Some a"
    by (simp add: wa nm)
  let ?dss = "map2 (\<lambda>(name, b) (name', a). map2 (\<lambda>v u. v - u) (data a) (data b)) wb wa"
  have "?dss ! i = map2 (\<lambda>v u. v - u) (data a) (data b)"
    using assms(3) len by (simp add: wb wa)
  moreover have "i < length ?dss"
    using assms(3) len by simp
  ultimately have "map2 (\<lambda>v u. v - u) (data a) (data b) \<in> set ?dss"
    by (metis nth_mem)
  then have "set (map2 (\<lambda>v u. v - u) (data a) (data b)) \<subseteq> \<Union> (set ` set ?dss)"
    by blast
  then have "set (map2 (\<lambda>v u. v - u) (data a) (data b)) \<subseteq> set (differences wb wa)"
    by (simp only: differences_def set_concat)
  with wb wa nm look ss show thesis
    by (intro that [of name b a]) simp_all
qed

lemma map2_second: "length xs = length ys \<Longrightarrow> map2 (\<lambda>x y. y) xs ys = ys"
  by (induction xs ys rule: list_induct2) simp_all

lemma interpolate32_zero:
  assumes "distinct (map fst wb)" and "signature wa = signature wb" and "finite32_dict wb"
    and "list_all (\<lambda>d. round32 d \<noteq> None) (differences wb wa)"
  shows "interpolate32 wb wa 0 = Some wb"
proof -
  have "for_each (\<lambda>(name, b). do {
                 a \<leftarrow> map_of wa name;
                 d \<leftarrow> t_sub32 a b;
                 e \<leftarrow> t_scale32 d 0;
                 v \<leftarrow> t_add32 b e;
                 Some (name, v)
               }) wb = Some (map (\<lambda>x. x) wb)"
  proof (rule for_each_map_Some)
    fix x
    assume "x \<in> set wb"
    then obtain i where i: "i < length wb" and x: "wb ! i = x"
      by (auto simp: in_set_conv_nth)
    from assms(1,2) i obtain name b a where wb: "wb ! i = (name, b)"
      and look: "map_of wa name = Some a" and ss: "same_shape a b"
      and sub: "set (map2 (\<lambda>v u. v - u) (data a) (data b)) \<subseteq> set (differences wb wa)"
      by (rule paired_entry)
    have "wb ! i \<in> set wb"
      using i by simp
    then have fb: "finite32 b"
      using assms(3) wb by (auto simp: finite32_dict_def list_all_iff)
    have fin: "list_all (\<lambda>d. round32 d \<noteq> None) (map2 (\<lambda>v u. v - u) (data a) (data b))"
      using assms(4) sub unfolding list_all_iff by blast
    have xe: "x = (name, b)"
      using x wb by simp
    show "(case x of (name, b) \<Rightarrow> do {
                 a \<leftarrow> map_of wa name;
                 d \<leftarrow> t_sub32 a b;
                 e \<leftarrow> t_scale32 d 0;
                 v \<leftarrow> t_add32 b e;
                 Some (name, v)
               }) = Some x"
      using sub32_scale0_add32 [OF ss fb fin, of name] look by (simp add: xe)
  qed
  then show ?thesis
    by (simp add: interpolate32_def)
qed

lemma interpolate32_one:
  assumes "distinct (map fst wb)" and "signature wa = signature wb" and "finite32_dict wa"
    and "list_all (\<lambda>d. round32 d = Some d) (differences wb wa)"
  shows "interpolate32 wb wa 1 = Some wa"
proof -
  have len: "length wa = length wb"
    using assms(2) by (rule signature_length)
  have "list_all2 (\<lambda>x y. (case x of (name, b) \<Rightarrow> do {
                 a \<leftarrow> map_of wa name;
                 d \<leftarrow> t_sub32 a b;
                 e \<leftarrow> t_scale32 d 1;
                 v \<leftarrow> t_add32 b e;
                 Some (name, v)
               }) = Some ((\<lambda>x y. y) x y)) wb wa"
    unfolding list_all2_conv_all_nth
  proof (intro conjI allI impI)
    show "length wb = length wa"
      using len by simp
    fix i
    assume i: "i < length wb"
    from assms(1,2) i obtain name b a where wb: "wb ! i = (name, b)" and wa: "wa ! i = (name, a)"
      and look: "map_of wa name = Some a" and ss: "same_shape a b"
      and sub: "set (map2 (\<lambda>v u. v - u) (data a) (data b)) \<subseteq> set (differences wb wa)"
      by (rule paired_entry)
    have "wa ! i \<in> set wa"
      using i len by simp
    then have fa: "finite32 a"
      using assms(3) wa by (auto simp: finite32_dict_def list_all_iff)
    have ex: "list_all (\<lambda>d. round32 d = Some d) (map2 (\<lambda>v u. v - u) (data a) (data b))"
      using assms(4) sub unfolding list_all_iff by blast
    show "(case wb ! i of (name, b) \<Rightarrow> do {
                 a \<leftarrow> map_of wa name;
                 d \<leftarrow> t_sub32 a b;
                 e \<leftarrow> t_scale32 d 1;
                 v \<leftarrow> t_add32 b e;
                 Some (name, v)
               }) = Some (wa ! i)"
      using sub32_scale1_add32 [OF ss fa ex, of name] look by (simp add: wb wa)
  qed
  then have "for_each (\<lambda>(name, b). do {
                 a \<leftarrow> map_of wa name;
                 d \<leftarrow> t_sub32 a b;
                 e \<leftarrow> t_scale32 d 1;
                 v \<leftarrow> t_add32 b e;
                 Some (name, v)
               }) wb = Some (map2 (\<lambda>x y. y) wb wa)"
    by (rule for_each_list_all2)
  then show ?thesis
    using len by (simp add: interpolate32_def map2_second)
qed

text \<open>
  C4 (as stated): the meta-update with step size 1 yields exactly \<open>W_after\<close>, and with
  step size 0 exactly \<open>W_before\<close>, for every pair of parameter mappings. In \<open>float32\<close> it
  does not: from the weight 100000000 towards the weight 1 with step size 1 the result is
  0, because \<open>1 - 100000000\<close> rounds to \<open>-100000000\<close>; and between \<open>-2 ^ 127\<close> and
  \<open>2 ^ 127\<close> the difference overflows, so that step size 0 does not give \<open>W_before\<close> back.
\<close>

theorem interpolation_float32_not_exact:
  "finite32_dict [(''0.weight'', \<lparr>shape = [1], data = [100000000]\<rparr>)]
   \<and> finite32_dict [(''0.weight'', \<lparr>shape = [1], data = [1]\<rparr>)]
   \<and> interpolate32 [(''0.weight'', \<lparr>shape = [1], data = [100000000]\<rparr>)]
         [(''0.weight'', \<lparr>shape = [1], data = [1]\<rparr>)] 1
       = Some [(''0.weight'', \<lparr>shape = [1], data = [0]\<rparr>)]
   \<and> interpolate32 [(''0.weight'', \<lparr>shape = [1], data = [100000000]\<rparr>)]
         [(''0.weight'', \<lparr>shape = [1], data = [1]\<rparr>)] 1
       \<noteq> Some [(''0.weight'', \<lparr>shape = [1], data = [1]\<rparr>)]
   \<and> finite32_dict [(''0.weight'', \<lparr>shape = [1], data = [- (2 ^ 127)]\<rparr>)]
   \<and> finite32_dict [(''0.weight'', \<lparr>shape = [1], data = [2 ^ 127]\<rparr>)]
   \<and> interpolate32 [(''0.weight'', \<lparr>shape = [1], data = [- (2 ^ 127)]\<rparr>)]
         [(''0.weight'', \<lparr>shape = [1], data = [2 ^ 127]\<rparr>)] 0
       \<noteq> Some [(''0.weight'', \<lparr>shape = [1], data = [- (2 ^ 127)]\<rparr>)]"
proof -
  have "interpolate32 [(''0.weight'', \<lparr>shape = [1], data = [100000000]\<rparr>)]
         [(''0.weight'', \<lparr>shape = [1], data = [1]\<rparr>)] 1
       = Some [(''0.weight'', \<lparr>shape = [1], data = [0]\<rparr>)]"
    by (simp add: interpolate32_def t_sub32_def t_add32_def t_scale32_def elementwise32_def
        same_shape_def round32_example_values round32_0 round32_1)
  moreover have "interpolate32 [(''0.weight'', \<lparr>shape = [1], data = [- (2 ^ 127)]\<rparr>)]
         [(''0.weight'', \<lparr>shape = [1], data = [2 ^ 127]\<rparr>)] 0 = None"
    unfolding interpolate32_def t_sub32_def elementwise32_def
    by (simp add: same_shape_def round32_overflow_example del: power_numeral)
  moreover have "finite32_dict [(''0.weight'', \<lparr>shape = [1], data = [100000000]\<rparr>)]"
    "finite32_dict [(''0.weight'', \<lparr>shape = [1], data = [1]\<rparr>)]"
    by (simp_all add: finite32_dict_def finite32_def round32_example_values round32_1)
  moreover have "finite32_dict [(''0.weight'', \<lparr>shape = [1], data = [- (2 ^ 127)]\<rparr>)]"
    "finite32_dict [(''0.weight'', \<lparr>shape = [1], data = [2 ^ 127]\<rparr>)]"
    unfolding finite32_dict_def finite32_def
    by (simp_all add: round32_overflow_example del: power_numeral)
  ultimately show ?thesis
    by simp
qed

text \<open>
  C4 (amended): for state dicts of the same names and shapes that hold finite \<open>float32\<close>
  values, the meta-update with step size 0 yields \<open>W_before\<close> whenever no difference
  \<open>W_after - W_before\<close> overflows, and with step size 1 it yields exactly \<open>W_after\<close>
  whenever every difference \<open>W_after - W_before\<close> is a \<open>float32\<close> value, that is, is
  computed without rounding.
\<close>

theorem interpolation_endpoints_float32:
  assumes "distinct (map fst wb)" and "signature wa = signature wb"
    and "finite32_dict wb" and "finite32_dict wa"
  shows "(list_all (\<lambda>d. round32 d \<noteq> None) (differences wb wa) \<longrightarrow>
            interpolate32 wb wa 0 = Some wb \<and> load_state_dict wa wb = Some wb)
       \<and> (list_all (\<lambda>d. round32 d = Some d) (differences wb wa) \<longrightarrow>
            interpolate32 wb wa 1 = Some wa \<and> load_state_dict wa wa = Some wa)"
proof -
  have da: "distinct (map fst wa)"
    using signature_keys [OF assms(2)] assms(1) by simp
  have l0: "load_state_dict wa wb = Some wb"
    using assms(2) [symmetric] assms(1) by (rule load_state_dict_Some)
  have l1: "load_state_dict wa wa = Some wa"
    using refl da by (rule load_state_dict_Some)
  show ?thesis
    using interpolate32_zero [OF assms(1,2,3)] interpolate32_one [OF assms(1,2,4)] l0 l1
    by simp
qed

theorem interpolation_endpoints_float32_witness:
  "interpolate32 [(''0.weight'', \<lparr>shape = [2, 1], data = [1, 2]\<rparr>), (''0.bias'', \<lparr>shape = [1], data = [5]\<rparr>)]
               [(''0.weight'', \<lparr>shape = [2, 1], data = [3, 6]\<rparr>), (''0.bias'', \<lparr>shape = [1], data = [7]\<rparr>)] 0
     = Some [(''0.weight'', \<lparr>shape = [2, 1], data = [1, 2]\<rparr>), (''0.bias'', \<lparr>shape = [1], data = [5]\<rparr>)]
   \<and> load_state_dict
        [(''0.weight'', \<lparr>shape = [2, 1], data = [3, 6]\<rparr>), (''0.bias'', \<lparr>shape = [1], data = [7]\<rparr>)]
        [(''0.weight'', \<lparr>shape = [2, 1], data = [1, 2]\<rparr>), (''0.bias'', \<lparr>shape = [1], data = [5]\<rparr>)]
     = Some [(''0.weight'', \<lparr>shape = [2, 1], data = [1, 2]\<rparr>), (''0.bias'', \<lparr>shape = [1], data = [5]\<rparr>)]
   \<and> interpolate32 [(''0.weight'', \<lparr>shape = [2, 1], data = [1, 2]\<rparr>), (''0.bias'', \<lparr>shape = [1], data = [5]\<rparr>)]
               [(''0.weight'', \<lparr>shape = [2, 1], data = [3, 6]\<rparr>), (''0.bias'', \<lparr>shape = [1], data = [7]\<rparr>)] 1
     = Some [(''0.weight'', \<lparr>shape = [2, 1], data = [3, 6]\<rparr>), (''0.bias'', \<lparr>shape = [1], data = [7]\<rparr>)]
   \<and> load_state_dict
        [(''0.weight'', \<lparr>shape = [2, 1], data = [3, 6]\<rparr>), (''0.bias'', \<lparr>shape = [1], data = [7]\<rparr>)]
        [(''0.weight'', \<lparr>shape = [2, 1], data = [3, 6]\<rparr>), (''0.bias'', \<lparr>shape = [1], data = [7]\<rparr>)]
     = Some [(''0.weight'', \<lparr>shape = [2, 1], data = [3, 6]\<rparr>), (''0.bias'', \<lparr>shape = [1], data = [7]\<rparr>)]"
proof -
  let ?wb = "[(''0.weight'', \<lparr>shape = [2, 1], data = [1, 2]\<rparr>), (''0.bias'', \<lparr>shape = [1], data = [5]\<rparr>)]"
  let ?wa = "[(''0.weight'', \<lparr>shape = [2, 1], data = [3, 6]\<rparr>), (''0.bias'', \<lparr>shape = [1], data = [7]\<rparr>)]"
  have d: "distinct (map fst ?wb)" and sg: "signature ?wa = signature ?wb"
    by (simp_all add: signature_def)
  have fb: "finite32_dict ?wb" and fa: "finite32_dict ?wa"
    by (simp_all add: finite32_dict_def finite32_def round32_small_values round32_1)
  have diffs: "differences ?wb ?wa = [2, 4, 2]"
    by (simp add: differences_def)
  have "list_all (\<lambda>d. round32 d \<noteq> None) (differences ?wb ?wa)"
    and "list_all (\<lambda>d. round32 d = Some d) (differences ?wb ?wa)"
    unfolding diffs by (simp_all add: round32_small_values)
  then show ?thesis
    using interpolation_endpoints_float32 [OF d sg fb fa] by simp
qed

subsection \<open>The Gram matrix in float32\<close>

lemma gram_matrix32_entries:
  assumes "dim t 3 = Some c" and "0 < c" and "c dvd length (data t)"
    and "gram_matrix32 t = Some g"
  shows "shape g = [c, c] \<and> length (data g) = c * c
       \<and> (\<forall>i<c. \<forall>j<c. accumulate32 0 (gram_products t c i j) = Some (data g ! (i * c + j)))"
proof -
  let ?d = "data t"
  let ?R = "length ?d div c"
  let ?mt = "concat (map (\<lambda>j. map (\<lambda>i. ?d ! (i * c + j)) [0..<?R]) [0..<c])"
  let ?idx = "concat (map (\<lambda>i. map (Pair i) [0..<c]) [0..<c])"
  let ?F = "\<lambda>(i, j). accumulate32 0 (map (\<lambda>l. (?mt ! (i * ?R + l), ?d ! (l * c + j))) [0..<?R])"
  have resh: "tf_reshape_rows t c = Some \<lparr>shape = [?R, c], data = ?d\<rparr>"
    using assms(2,3) by (simp add: tf_reshape_rows_def)
  have tr: "tf_transpose \<lparr>shape = [?R, c], data = ?d\<rparr> = Some \<lparr>shape = [c, ?R], data = ?mt\<rparr>"
    by (simp add: tf_transpose_def)
  have "tf_matmul32 \<lparr>shape = [c, ?R], data = ?mt\<rparr> \<lparr>shape = [?R, c], data = ?d\<rparr> = Some g"
    using assms(1,4) by (simp add: gram_matrix32_def resh tr)
  then have "map_option (\<lambda>d. \<lparr>shape = [c, c], data = d\<rparr>) (for_each ?F ?idx) = Some g"
    by (simp add: tf_matmul32_def)
  then obtain ds where ds: "for_each ?F ?idx = Some ds" and g: "g = \<lparr>shape = [c, c], data = ds\<rparr>"
    by auto
  from for_each_Some_nth [OF ds] have len: "length ds = c * c"
    and nth: "\<forall>k<c * c. ?F (?idx ! k) = Some (ds ! k)"
    by (simp_all add: length_concat_table)
  have entry: "accumulate32 0 (gram_products t c i j) = Some (ds ! (i * c + j))"
    if i: "i < c" and j: "j < c" for i j
  proof -
    have k: "i * c + j < c * c"
      using i j by (rule block_index_less)
    have "?idx ! (i * c + j) = (i, j)"
      using i j by (rule nth_concat_table)
    with nth k have acc: "accumulate32 0 (map (\<lambda>l. (?mt ! (i * ?R + l), ?d ! (l * c + j))) [0..<?R])
                            = Some (ds ! (i * c + j))"
      by auto
    have "map (\<lambda>l. (?mt ! (i * ?R + l), ?d ! (l * c + j))) [0..<?R] = gram_products t c i j"
      unfolding gram_products_def using i by (intro map_cong refl) (simp add: nth_concat_table)
    with acc show ?thesis by simp
  qed
  show ?thesis
    using len entry by (simp add: g)
qed

lemma accumulate32_swap: "accumulate32 acc (map prod.swap ps) = accumulate32 acc ps"
proof (induction ps arbitrary: acc)
  case Nil
  then show ?case by simp
next
  case (Cons p ps)
  obtain u v where p: "p = (u, v)" by (cases p)
  show ?case
    by (simp add: p mult.commute [of v u] Cons.IH)
qed

lemma gram_products_swap: "gram_products t c j i = map prod.swap (gram_products t c i j)"
  by (simp add: gram_products_def)

lemma table_of_list:
  assumes "length d = m * n"
  shows "concat (map (\<lambda>i. map (\<lambda>j. d ! (i * n + j)) [0..<n]) [0..<m]) = d"
proof (rule nth_equalityI)
  show "length (concat (map (\<lambda>i. map (\<lambda>j. d ! (i * n + j)) [0..<n]) [0..<m])) = length d"
    using assms by (simp add: length_concat_table)
  fix k
  assume "k < length (concat (map (\<lambda>i. map (\<lambda>j. d ! (i * n + j)) [0..<n]) [0..<m]))"
  then have k: "k < m * n"
    by (simp add: length_concat_table)
  then have n: "0 < n"
    by (cases n) simp_all
  have i: "k div n < m"
    using k n by (simp add: less_mult_imp_div_less)
  have j: "k mod n < n"
    using n by simp
  have "concat (map (\<lambda>i. map (\<lambda>j. d ! (i * n + j)) [0..<n]) [0..<m]) ! (k div n * n + k mod n)
          = d ! (k div n * n + k mod n)"
    using i j by (rule nth_concat_table)
  then show "concat (map (\<lambda>i. map (\<lambda>j. d ! (i * n + j)) [0..<n]) [0..<m]) ! k = d ! k"
    by simp
qed

lemma symmetric_entries:
  assumes "shape g = [c, c]" and "length (data g) = c * c"
    and "\<And>i j. i < c \<Longrightarrow> j < c \<Longrightarrow> data g ! (i * c + j) = data g ! (j * c + i)"
  shows "symmetric g"
proof -
  have "map (\<lambda>j. map (\<lambda>i. data g ! (i * c + j)) [0..<c]) [0..<c]
          = map (\<lambda>j. map (\<lambda>i. data g ! (j * c + i)) [0..<c]) [0..<c]"
    by (intro map_cong refl) (simp add: assms(3))
  then have "concat (map (\<lambda>j. map (\<lambda>i. data g ! (i * c + j)) [0..<c]) [0..<c])
          = concat (map (\<lambda>j. map (\<lambda>i. data g ! (j * c + i)) [0..<c]) [0..<c])"
    by (rule arg_cong)
  also have "\<dots> = data g"
    using assms(2) by (rule table_of_list)
  finally have "tf_transpose g = Some \<lparr>shape = [c, c], data = data g\<rparr>"
    using assms(1) by (simp add: tf_transpose_def)
  moreover have "\<lparr>shape = [c, c], data = data g\<rparr> = g"
    using assms(1) by simp
  ultimately show ?thesis
    by (simp add: symmetric_def)
qed

lemma gram_matrix32_symmetric:
  assumes "dim t 3 = Some c" and "0 < c" and "c dvd length (data t)"
    and "gram_matrix32 t = Some g"
  shows "symmetric g"
proof -
  note e = gram_matrix32_entries [OF assms]
  show ?thesis
  proof (rule symmetric_entries)
    show "shape g = [c, c]" and "length (data g) = c * c"
      using e by simp_all
    fix i j
    assume i: "i < c" and j: "j < c"
    have "accumulate32 0 (gram_products t c i j) = Some (data g ! (i * c + j))"
      using e i j by simp
    moreover have "accumulate32 0 (gram_products t c j i) = Some (data g ! (j * c + i))"
      using e i j by simp
    moreover have "accumulate32 0 (gram_products t c j i) = accumulate32 0 (gram_products t c i j)"
      by (simp only: gram_products_swap [of t c j i] accumulate32_swap)
    ultimately show "data g ! (i * c + j) = data g ! (j * c + i)"
      by simp
  qed
qed

lemma gram_matrix_exact_entries:
  assumes "shape t = [n, h, w, c]" and "wf_tensor t" and "0 < c"
  shows "\<exists>g. gram_matrix t = Some g \<and> shape g = [c, c] \<and> length (data g) = c * c
           \<and> (\<forall>i<c. \<forall>j<c. data g ! (i * c + j)
                  = (\<Sum>r<n * h * w. data t ! (r * c + i) * data t ! (r * c + j)))"
proof -
  let ?g = "\<lparr>shape = [c, c],
             data = concat (map (\<lambda>i. map (\<lambda>j. gram_entry (data t) c i j) [0..<c]) [0..<c])\<rparr>"
  have len: "length (data t) = n * h * w * c"
    using assms(1,2) by (simp add: wf_tensor_def)
  have rows: "length (data t) div c = n * h * w"
    using assms(3) by (simp add: len)
  have d3: "dim t 3 = Some c"
    using assms(1) by (simp add: dim_def)
  have "c dvd length (data t)"
    by (simp add: len)
  with d3 assms(3) have g: "gram_matrix t = Some ?g"
    by (rule gram_matrix_entries)
  have "data ?g ! (i * c + j) = (\<Sum>r<n * h * w. data t ! (r * c + i) * data t ! (r * c + j))"
    if "i < c" and "j < c" for i j
    using that by (simp add: nth_concat_table gram_entry_def rows sum_list_upt_sum)
  then show ?thesis
    using g by (intro exI [of _ ?g]) (simp add: length_concat_table)
qed

lemma accumulate32_exact:
  assumes "exact_accumulation acc ps"
  shows "accumulate32 acc ps = Some (acc + sum_list (map (\<lambda>(u, v). u * v) ps))"
  using assms
proof (induction ps arbitrary: acc)
  case Nil
  then show ?case by simp
next
  case (Cons p ps)
  obtain u v where p: "p = (u, v)" by (cases p)
  from Cons.prems have r: "round32 (u * v) = Some (u * v)" "round32 (acc + u * v) = Some (acc + u * v)"
    and rest: "exact_accumulation (acc + u * v) ps"
    by (simp_all add: p)
  show ?case
    using Cons.IH [OF rest] r by (simp add: p add.assoc)
qed

lemma sum_list_gram_products:
  "sum_list (map (\<lambda>(u, v). u * v) (gram_products t c i j)) = gram_entry (data t) c i j"
  by (simp add: gram_products_def gram_entry_def comp_def)

lemma gram_matrix32_exact:
  assumes "dim t 3 = Some c" and "0 < c" and "c dvd length (data t)"
    and ex: "\<And>i j. i < c \<Longrightarrow> j < c \<Longrightarrow> exact_accumulation 0 (gram_products t c i j)"
  shows "gram_matrix32 t = gram_matrix t"
proof -
  let ?d = "data t"
  let ?R = "length ?d div c"
  let ?mt = "concat (map (\<lambda>j. map (\<lambda>i. ?d ! (i * c + j)) [0..<?R]) [0..<c])"
  let ?idx = "concat (map (\<lambda>i. map (Pair i) [0..<c]) [0..<c])"
  let ?F = "\<lambda>(i, j). accumulate32 0 (map (\<lambda>l. (?mt ! (i * ?R + l), ?d ! (l * c + j))) [0..<?R])"
  let ?G = "\<lambda>(i, j). gram_entry ?d c i j"
  have resh: "tf_reshape_rows t c = Some \<lparr>shape = [?R, c], data = ?d\<rparr>"
    using assms(2,3) by (simp add: tf_reshape_rows_def)
  have tr: "tf_transpose \<lparr>shape = [?R, c], data = ?d\<rparr> = Some \<lparr>shape = [c, ?R], data = ?mt\<rparr>"
    by (simp add: tf_transpose_def)
  have "for_each ?F ?idx = Some (map ?G ?idx)"
  proof (rule for_each_map_Some)
    fix x
    assume "x \<in> set ?idx"
    then obtain i j where x: "x = (i, j)" and i: "i < c" and j: "j < c"
      by auto
    have "map (\<lambda>l. (?mt ! (i * ?R + l), ?d ! (l * c + j))) [0..<?R] = gram_products t c i j"
      unfolding gram_products_def using i by (intro map_cong refl) (simp add: nth_concat_table)
    moreover have "accumulate32 0 (gram_products t c i j) = Some (gram_entry ?d c i j)"
      using accumulate32_exact [OF ex [OF i j]] by (simp add: sum_list_gram_products)
    ultimately show "?F x = Some (?G x)"
      by (simp add: x)
  qed
  moreover have "map ?G ?idx = concat (map (\<lambda>i. map (\<lambda>j. gram_entry ?d c i j) [0..<c]) [0..<c])"
    by (simp add: map_concat comp_def)
  ultimately have "tf_matmul32 \<lparr>shape = [c, ?R], data = ?mt\<rparr> \<lparr>shape = [?R, c], data = ?d\<rparr>
      = Some \<lparr>shape = [c, c],
              data = concat (map (\<lambda>i. map (\<lambda>j. gram_entry ?d c i j) [0..<c]) [0..<c])\<rparr>"
    by (simp add: tf_matmul32_def)
  then have "gram_matrix32 t = Some \<lparr>shape = [c, c],
              data = concat (map (\<lambda>i. map (\<lambda>j. gram_entry ?d c i j) [0..<c]) [0..<c])\<rparr>"
    using assms(1) by (simp add: gram_matrix32_def resh tr)
  moreover have "gram_matrix t = Some \<lparr>shape = [c, c],
              data = concat (map (\<lambda>i. map (\<lambda>j. gram_entry ?d c i j) [0..<c]) [0..<c])\<rparr>"
    using assms(1,2,3) by (rule gram_matrix_entries)
  ultimately show ?thesis
    by simp
qed

lemma all_less_2: "(\<forall>i<2. P i) \<longleftrightarrow> P 0 \<and> P (1 :: nat)"
  by (auto simp: less_2_cases_iff)

lemma exact_accumulation_example:
  "\<forall>i<2. \<forall>j<2.
     exact_accumulation 0 (gram_products \<lparr>shape = [1, 2, 1, 2], data = [1, 2, 3, 4]\<rparr> 2 i j)
   \<and> exact_accumulation 0 (gram_products \<lparr>shape = [1, 2, 1, 2], data = [3, 4, 1, 2]\<rparr> 2 i j)"
  unfolding all_less_2
  by (simp add: gram_products_def round32_small_values round32_1 unroll_upt)

lemma gram_matrix_example:
  "gram_matrix \<lparr>shape = [1, 2, 1, 2], data = [1, 2, 3, 4]\<rparr>
     = Some \<lparr>shape = [2, 2], data = [10, 14, 14, 20]\<rparr>"
  "gram_matrix \<lparr>shape = [1, 2, 1, 2], data = [3, 4, 1, 2]\<rparr>
     = Some \<lparr>shape = [2, 2], data = [10, 14, 14, 20]\<rparr>"
  by (simp_all add: gram_matrix_def dim_def tf_reshape_rows_def tf_transpose_def tf_matmul_def
      unroll_upt)

lemma gram_matrix32_example:
  "gram_matrix32 \<lparr>shape = [1, 2, 1, 2], data = [1, 2, 3, 4]\<rparr>
     = Some \<lparr>shape = [2, 2], data = [10, 14, 14, 20]\<rparr>"
  "gram_matrix32 \<lparr>shape = [1, 2, 1, 2], data = [3, 4, 1, 2]\<rparr>
     = Some \<lparr>shape = [2, 2], data = [10, 14, 14, 20]\<rparr>"
  by (simp_all add: gram_matrix32_def dim_def tf_reshape_rows_def tf_transpose_def tf_matmul32_def
      unroll_upt round32_small_values round32_1)

lemma spatial_permute_example:
  "spatial_permute [1, 0] \<lparr>shape = [1, 2, 1, 2], data = [1, 2, 3, 4]\<rparr>
     = \<lparr>shape = [1, 2, 1, 2], data = [3, 4, 1, 2]\<rparr>"
  by (simp add: spatial_permute_def unroll_upt)

text \<open>
  C10 (as stated): the matrix that \<open>gram_matrix\<close> returns is positive semidefinite. In
  \<open>float32\<close> it need not be: for the one-row activation \<open>[1, 1 + 2 ^ -12]\<close> the square
  \<open>1 + 2 ^ -11 + 2 ^ -24\<close> rounds to \<open>1 + 2 ^ -11\<close>, and the returned matrix has the
  determinant \<open>- 2 ^ -24\<close>.
\<close>

theorem gram_matrix32_not_psd:
  "finite32 \<lparr>shape = [1, 1, 1, 2], data = [1, 4097 / 4096]\<rparr>
   \<and> gram_matrix32 \<lparr>shape = [1, 1, 1, 2], data = [1, 4097 / 4096]\<rparr>
       = Some \<lparr>shape = [2, 2], data = [1, 4097 / 4096, 4097 / 4096, 2049 / 2048]\<rparr>
   \<and> \<not> positive_semidefinite \<lparr>shape = [2, 2], data = [1, 4097 / 4096, 4097 / 4096, 2049 / 2048]\<rparr>"
proof -
  let ?t = "\<lparr>shape = [1, 1, 1, 2], data = [1, 4097 / 4096]\<rparr>"
  let ?g = "\<lparr>shape = [2, 2], data = [1, 4097 / 4096, 4097 / 4096, 2049 / 2048]\<rparr>"
  have f: "finite32 ?t"
    by (simp add: finite32_def round32_near_one round32_1)
  have g: "gram_matrix32 ?t = Some ?g"
    by (simp add: gram_matrix32_def dim_def tf_reshape_rows_def tf_transpose_def tf_matmul32_def
        unroll_upt round32_near_one round32_1)
  have "\<not> positive_semidefinite ?g"
  proof
    assume "positive_semidefinite ?g"
    then have "\<forall>v. length v = 2 \<longrightarrow>
                 0 \<le> (\<Sum>i<2. \<Sum>j<2. v ! i * data ?g ! (i * 2 + j) * v ! j)"
      by (simp add: positive_semidefinite_def)
    then have "0 \<le> (\<Sum>i<2. \<Sum>j<2. [4097 / 4096, - 1 :: real] ! i * data ?g ! (i * 2 + j)
                         * [4097 / 4096, - 1] ! j)"
      by (elim allE [of _ "[4097 / 4096, - 1]"]) simp
    then show False
      by (simp add: lessThan_Suc numeral_2_eq_2)
  qed
  with f g show ?thesis by simp
qed

text \<open>
  C10 (amended): for a well-formed 4-dimensional activation tensor with \<open>c > 0\<close> channels,
  \<open>gram_matrix\<close> returns the \<open>c\<close>-by-\<open>c\<close> matrix \<open>M\<^sup>T * M\<close>, \<open>M\<close> being the tensor reshaped
  to rows by channels: entry \<open>(i, j)\<close> is the sum over the rows \<open>r\<close> of
  \<open>M[r, i] * M[r, j]\<close>. In \<open>float32\<close> the products and partial sums of an entry are
  rounded, and the entry is that sum exactly where no rounding changes a value. The
  matrix is symmetric, in exact arithmetic and in \<open>float32\<close>; it is positive
  semidefinite when the sums are exact.
\<close>

theorem gram_matrix_product_form:
  assumes "shape t = [n, h, w, c]" and "wf_tensor t" and "0 < c"
  shows "(\<exists>m mt g. tf_reshape_rows t c = Some m \<and> shape m = [n * h * w, c] \<and> data m = data t
            \<and> tf_transpose m = Some mt \<and> tf_matmul mt m = Some g
            \<and> gram_matrix t = Some g \<and> shape g = [c, c] \<and> wf_tensor g
            \<and> (\<forall>i<c. \<forall>j<c. data g ! (i * c + j)
                   = (\<Sum>r<n * h * w. data t ! (r * c + i) * data t ! (r * c + j)))
            \<and> symmetric g \<and> positive_semidefinite g)
       \<and> (\<forall>g. gram_matrix32 t = Some g \<longrightarrow>
             shape g = [c, c] \<and> wf_tensor g
           \<and> (\<forall>i<c. \<forall>j<c. accumulate32 0 (gram_products t c i j) = Some (data g ! (i * c + j)))
           \<and> (\<forall>i<c. \<forall>j<c. exact_accumulation 0 (gram_products t c i j) \<longrightarrow>
                  data g ! (i * c + j)
                    = (\<Sum>r<n * h * w. data t ! (r * c + i) * data t ! (r * c + j)))
           \<and> symmetric g)"
proof -
  obtain m mt g where a: "tf_reshape_rows t c = Some m" "shape m = [n * h * w, c]"
      "data m = data t" "tf_transpose m = Some mt" "tf_matmul mt m = Some g"
      "gram_matrix t = Some g" "shape g = [c, c]" "wf_tensor g" "symmetric g"
      "positive_semidefinite g"
    using gram_matrix_symmetric_psd [OF assms] by blast
  obtain g' where b: "gram_matrix t = Some g'"
      "\<forall>i<c. \<forall>j<c. data g' ! (i * c + j)
          = (\<Sum>r<n * h * w. data t ! (r * c + i) * data t ! (r * c + j))"
    using gram_matrix_exact_entries [OF assms] by blast
  have "g' = g"
    using a(6) b(1) by simp
  with b(2) have entries: "\<forall>i<c. \<forall>j<c. data g ! (i * c + j)
          = (\<Sum>r<n * h * w. data t ! (r * c + i) * data t ! (r * c + j))"
    by simp
  have exact: "\<exists>m mt g. tf_reshape_rows t c = Some m \<and> shape m = [n * h * w, c]
            \<and> data m = data t
            \<and> tf_transpose m = Some mt \<and> tf_matmul mt m = Some g
            \<and> gram_matrix t = Some g \<and> shape g = [c, c] \<and> wf_tensor g
            \<and> (\<forall>i<c. \<forall>j<c. data g ! (i * c + j)
                   = (\<Sum>r<n * h * w. data t ! (r * c + i) * data t ! (r * c + j)))
            \<and> symmetric g \<and> positive_semidefinite g"
    using a entries by (intro exI [of _ m] exI [of _ mt] exI [of _ g] conjI)
  have d3: "dim t 3 = Some c"
    using assms(1) by (simp add: dim_def)
  have len: "length (data t) = n * h * w * c"
    using assms(1,2) by (simp add: wf_tensor_def)
  have dvd: "c dvd length (data t)"
    by (simp add: len)
  have rows: "length (data t) div c = n * h * w"
    using assms(3) by (simp add: len)
  have rounded: "\<forall>g. gram_matrix32 t = Some g \<longrightarrow>
             shape g = [c, c] \<and> wf_tensor g
           \<and> (\<forall>i<c. \<forall>j<c. accumulate32 0 (gram_products t c i j) = Some (data g ! (i * c + j)))
           \<and> (\<forall>i<c. \<forall>j<c. exact_accumulation 0 (gram_products t c i j) \<longrightarrow>
                  data g ! (i * c + j)
                    = (\<Sum>r<n * h * w. data t ! (r * c + i) * data t ! (r * c + j)))
           \<and> symmetric g"
  proof (intro allI impI)
    fix g
    assume g: "gram_matrix32 t = Some g"
    note e = gram_matrix32_entries [OF d3 assms(3) dvd g]
    have sym: "symmetric g"
      using d3 assms(3) dvd g by (rule gram_matrix32_symmetric)
    have ex: "data g ! (i * c + j) = (\<Sum>r<n * h * w. data t ! (r * c + i) * data t ! (r * c + j))"
      if i: "i < c" and j: "j < c" and x: "exact_accumulation 0 (gram_products t c i j)" for i j
    proof -
      have "accumulate32 0 (gram_products t c i j) = Some (data g ! (i * c + j))"
        using e i j by simp
      moreover have "accumulate32 0 (gram_products t c i j) = Some (gram_entry (data t) c i j)"
        using accumulate32_exact [OF x] by (simp add: sum_list_gram_products)
      ultimately have "data g ! (i * c + j) = gram_entry (data t) c i j"
        by simp
      then show ?thesis
        by (simp add: gram_entry_def rows sum_list_upt_sum)
    qed
    show "shape g = [c, c] \<and> wf_tensor g
           \<and> (\<forall>i<c. \<forall>j<c. accumulate32 0 (gram_products t c i j) = Some (data g ! (i * c + j)))
           \<and> (\<forall>i<c. \<forall>j<c. exact_accumulation 0 (gram_products t c i j) \<longrightarrow>
                  data g ! (i * c + j)
                    = (\<Sum>r<n * h * w. data t ! (r * c + i) * data t ! (r * c + j)))
           \<and> symmetric g"
      using e sym ex by (simp add: wf_tensor_def)
  qed
  show ?thesis
    using exact rounded by (rule conjI)
qed

theorem gram_matrix_product_form_witness:
  "(\<exists>m mt g. tf_reshape_rows \<lparr>shape = [1, 2, 1, 2], data = [1, 2, 3, 4]\<rparr> 2 = Some m
       \<and> shape m = [1 * 2 * 1, 2] \<and> data m = [1, 2, 3, 4]
       \<and> tf_transpose m = Some mt \<and> tf_matmul mt m = Some g
       \<and> gram_matrix \<lparr>shape = [1, 2, 1, 2], data = [1, 2, 3, 4]\<rparr> = Some g
       \<and> shape g = [2, 2] \<and> wf_tensor g
       \<and> (\<forall>i<2. \<forall>j<2. data g ! (i * 2 + j)
              = (\<Sum>r<1 * 2 * 1. [1, 2, 3, 4] ! (r * 2 + i) * [1, 2, 3, 4] ! (r * 2 + j)))
       \<and> symmetric g \<and> positive_semidefinite g)
   \<and> gram_matrix32 \<lparr>shape = [1, 2, 1, 2], data = [1, 2, 3, 4]\<rparr>
       = Some \<lparr>shape = [2, 2], data = [10, 14, 14, 20]\<rparr>
   \<and> wf_tensor \<lparr>shape = [2, 2], data = [10, 14, 14, 20]\<rparr>
   \<and> symmetric \<lparr>shape = [2, 2], data = [10, 14, 14, 20]\<rparr>
   \<and> accumulate32 0 (gram_products \<lparr>shape = [1, 2, 1, 2], data = [1, 2, 3, 4]\<rparr> 2 0 1) = Some 14
   \<and> exact_accumulation 0 (gram_products \<lparr>shape = [1, 2, 1, 2], data = [1, 2, 3, 4]\<rparr> 2 0 1)
   \<and> (14 :: real) = (\<Sum>r<1 * 2 * 1. [1, 2, 3, 4] ! (r * 2 + 0) * [1, 2, 3, 4] ! (r * 2 + 1))"
proof -
  let ?t = "\<lparr>shape = [1, 2, 1, 2], data = [1, 2, 3, 4]\<rparr>"
  let ?g = "\<lparr>shape = [2, 2], data = [10, 14, 14, 20]\<rparr>"
  have "shape ?t = [1, 2, 1, 2]" and "wf_tensor ?t" and "0 < (2 :: nat)"
    by (simp_all add: wf_tensor_def)
  note th = gram_matrix_product_form [OF this]
  have exact: "\<exists>m mt g. tf_reshape_rows ?t 2 = Some m
       \<and> shape m = [1 * 2 * 1, 2] \<and> data m = [1, 2, 3, 4]
       \<and> tf_transpose m = Some mt \<and> tf_matmul mt m = Some g
       \<and> gram_matrix ?t = Some g
       \<and> shape g = [2, 2] \<and> wf_tensor g
       \<and> (\<forall>i<2. \<forall>j<2. data g ! (i * 2 + j)
              = (\<Sum>r<1 * 2 * 1. [1, 2, 3, 4] ! (r * 2 + i) * [1, 2, 3, 4] ! (r * 2 + j)))
       \<and> symmetric g \<and> positive_semidefinite g"
    using th [THEN conjunct1] by simp
  have g: "gram_matrix32 ?t = Some ?g"
    by (rule gram_matrix32_example)
  have r: "shape ?g = [2, 2] \<and> wf_tensor ?g
           \<and> (\<forall>i<2. \<forall>j<2. accumulate32 0 (gram_products ?t 2 i j) = Some (data ?g ! (i * 2 + j)))
           \<and> (\<forall>i<2. \<forall>j<2. exact_accumulation 0 (gram_products ?t 2 i j) \<longrightarrow>
                  data ?g ! (i * 2 + j)
                    = (\<Sum>r<1 * 2 * 1. data ?t ! (r * 2 + i) * data ?t ! (r * 2 + j)))
           \<and> symmetric ?g"
    using th [THEN conjunct2] g by blast
  have x: "exact_accumulation 0 (gram_products ?t 2 0 1)"
    using exact_accumulation_example by simp
  from r have "accumulate32 0 (gram_products ?t 2 0 1) = Some (data ?g ! (0 * 2 + 1))"
    by simp
  then have acc: "accumulate32 0 (gram_products ?t 2 0 1) = Some 14"
    by simp
  have "exact_accumulation 0 (gram_products ?t 2 0 1) \<longrightarrow>
          data ?g ! (0 * 2 + 1)
            = (\<Sum>r<1 * 2 * 1. data ?t ! (r * 2 + 0) * data ?t ! (r * 2 + 1))"
    using r unfolding all_less_2 by blast
  with x have "data ?g ! (0 * 2 + 1)
                 = (\<Sum>r<1 * 2 * 1. data ?t ! (r * 2 + 0) * data ?t ! (r * 2 + 1))"
    by (rule rev_mp)
  moreover have "data ?g ! (0 * 2 + 1) = 14"
    by simp
  ultimately have s: "(14 :: real)
      = (\<Sum>r<1 * 2 * 1. [1, 2, 3, 4] ! (r * 2 + 0) * [1, 2, 3, 4] ! (r * 2 + 1))"
    by (simp only: tensor.simps)
  have w: "wf_tensor ?g" and sy: "symmetric ?g"
    using r by simp_all
  show ?thesis
    using exact g w sy acc x s by (intro conjI)
qed

lemma gram_products_spatial_permute:
  assumes sh: "shape t = [n, h, w, c]" and wf: "wf_tensor t" and c: "0 < c"
    and perm: "is_permutation perm (h * w)" and i: "i < c" and j: "j < c"
  shows "mset (gram_products (spatial_permute perm t) c i j) = mset (gram_products t c i j)"
proof -
  let ?d = "data t" and ?d' = "data (spatial_permute perm t)"
  let ?k = "h * w"
  let ?\<sigma> = "moved_row perm ?k"
  let ?F = "\<lambda>r. (?d ! (r * c + i), ?d ! (r * c + j))"
  have len: "length ?d = (n * ?k) * c"
    using sh wf by (simp add: wf_tensor_def mult.assoc)
  have rows: "length ?d div c = n * ?k"
    using c by (simp add: len)
  have nth: "?d' ! (l * c + m) = ?d ! (?\<sigma> l * c + m)" if "l < n * ?k" and "m < c" for l m
  proof -
    have "l * c + m < length ?d"
      unfolding len using that by (rule block_index_less)
    then show ?thesis
      using sh that(2) by (intro spatial_permute_nth)
  qed
  have "gram_products (spatial_permute perm t) c i j = map (\<lambda>r. ?F (?\<sigma> r)) [0..<n * ?k]"
    unfolding gram_products_def spatial_permute_length rows
    by (intro map_cong refl) (simp add: nth i j)
  then have "mset (gram_products (spatial_permute perm t) c i j)
               = image_mset ?F (image_mset ?\<sigma> (mset [0..<n * ?k]))"
    by (simp add: multiset.map_comp comp_def)
  also have "image_mset ?\<sigma> (mset [0..<n * ?k]) = mset [0..<n * ?k]"
  proof -
    have bij: "bij_betw ?\<sigma> {..<n * ?k} {..<n * ?k}"
      using perm by (rule moved_row_bij)
    have "image_mset ?\<sigma> (mset_set {..<n * ?k}) = mset_set (?\<sigma> ` {..<n * ?k})"
      using bij by (intro image_mset_mset_set) (simp add: bij_betw_def)
    also have "?\<sigma> ` {..<n * ?k} = {..<n * ?k}"
      using bij by (simp add: bij_betw_def)
    finally show ?thesis
      by (simp add: mset_upt atLeast0LessThan)
  qed
  also have "image_mset ?F (mset [0..<n * ?k]) = mset (gram_products t c i j)"
    by (simp add: gram_products_def rows)
  finally show ?thesis .
qed

text \<open>
  C6 (as stated): \<open>gram_matrix\<close> returns the same matrix for a spatially permuted
  activation tensor. In \<open>float32\<close> it need not: for the one-channel activations
  \<open>[4096, 1, 1]\<close> the sum \<open>16777216 + 1 + 1\<close> is rounded to 16777216, and for the
  permuted \<open>[1, 1, 4096]\<close> the sum \<open>1 + 1 + 16777216\<close> is 16777218.
\<close>

theorem gram_matrix32_order_dependent:
  "finite32 \<lparr>shape = [1, 3, 1, 1], data = [4096, 1, 1]\<rparr>
   \<and> is_permutation [1, 2, 0] (3 * 1)
   \<and> spatial_permute [1, 2, 0] \<lparr>shape = [1, 3, 1, 1], data = [4096, 1, 1]\<rparr>
       = \<lparr>shape = [1, 3, 1, 1], data = [1, 1, 4096]\<rparr>
   \<and> gram_matrix32 \<lparr>shape = [1, 3, 1, 1], data = [4096, 1, 1]\<rparr>
       = Some \<lparr>shape = [1, 1], data = [16777216]\<rparr>
   \<and> gram_matrix32 (spatial_permute [1, 2, 0] \<lparr>shape = [1, 3, 1, 1], data = [4096, 1, 1]\<rparr>)
       = Some \<lparr>shape = [1, 1], data = [16777218]\<rparr>
   \<and> gram_matrix32 (spatial_permute [1, 2, 0] \<lparr>shape = [1, 3, 1, 1], data = [4096, 1, 1]\<rparr>)
       \<noteq> gram_matrix32 \<lparr>shape = [1, 3, 1, 1], data = [4096, 1, 1]\<rparr>"
proof -
  let ?t = "\<lparr>shape = [1, 3, 1, 1], data = [4096, 1, 1]\<rparr>"
  have f: "finite32 ?t"
    by (simp add: finite32_def round32_tie_values round32_1)
  have p: "is_permutation [1, 2, 0] (3 * 1)"
    by (auto simp: is_permutation_def)
  have e: "spatial_permute [1, 2, 0] ?t = \<lparr>shape = [1, 3, 1, 1], data = [1, 1, 4096]\<rparr>"
    by (simp add: spatial_permute_def unroll_upt)
  have g: "gram_matrix32 ?t = Some \<lparr>shape = [1, 1], data = [16777216]\<rparr>"
    by (simp add: gram_matrix32_def dim_def tf_reshape_rows_def tf_transpose_def tf_matmul32_def
        unroll_upt round32_tie_values round32_1)
  have g': "gram_matrix32 \<lparr>shape = [1, 3, 1, 1], data = [1, 1, 4096]\<rparr>
              = Some \<lparr>shape = [1, 1], data = [16777218]\<rparr>"
    by (simp add: gram_matrix32_def dim_def tf_reshape_rows_def tf_transpose_def tf_matmul32_def
        unroll_upt round32_tie_values round32_small_values round32_1)
  show ?thesis
    unfolding e g g' using f p by simp
qed

text \<open>
  C6 (amended): permuting the spatial positions of a well-formed activation tensor,
  identically across channels, changes neither its Gram matrix nor the style loss in
  exact arithmetic. In \<open>float32\<close>, every entry of the Gram matrix of the permuted tensor
  is accumulated from the same products as before, in another order; the two matrices
  are equal whenever neither accumulation rounds.
\<close>

theorem gram_matrix_spatial_permutation_rounding:
  assumes "shape t = [n, h, w, c]" and "wf_tensor t" and "is_permutation perm (h * w)"
  shows "gram_matrix (spatial_permute perm t) = gram_matrix t
    \<and> (\<forall>S X layer. X layer = Some t \<longrightarrow>
          style_loss S (X(layer \<mapsto> spatial_permute perm t)) layer = style_loss S X layer)
    \<and> (\<forall>S X layer. S layer = Some t \<longrightarrow>
          style_loss (S(layer \<mapsto> spatial_permute perm t)) X layer = style_loss S X layer)
    \<and> (\<forall>g g'. gram_matrix32 t = Some g \<and> gram_matrix32 (spatial_permute perm t) = Some g' \<longrightarrow>
          shape g' = shape g
        \<and> (\<forall>i<c. \<forall>j<c.
              accumulate32 0 (gram_products t c i j) = Some (data g ! (i * c + j))
            \<and> accumulate32 0 (gram_products (spatial_permute perm t) c i j)
                = Some (data g' ! (i * c + j))
            \<and> mset (gram_products (spatial_permute perm t) c i j) = mset (gram_products t c i j)))
    \<and> ((\<forall>i<c. \<forall>j<c. exact_accumulation 0 (gram_products t c i j)
                     \<and> exact_accumulation 0 (gram_products (spatial_permute perm t) c i j)) \<longrightarrow>
          gram_matrix32 (spatial_permute perm t) = gram_matrix32 t)"
proof -
  let ?t' = "spatial_permute perm t"
  note exact = style_loss_spatial_permutation [OF assms]
  note e1 = exact [THEN conjunct1]
  note e2 = exact [THEN conjunct2, THEN conjunct1]
  note e3 = exact [THEN conjunct2, THEN conjunct2]
  have d3: "dim t 3 = Some c" "dim ?t' 3 = Some c"
    using assms(1) by (simp_all add: dim_def spatial_permute_shape)
  have dvd: "c dvd length (data t)" "c dvd length (data ?t')"
    using assms(1,2) by (simp_all add: wf_tensor_def spatial_permute_length)
  have rounded: "\<forall>g g'. gram_matrix32 t = Some g \<and> gram_matrix32 ?t' = Some g' \<longrightarrow>
          shape g' = shape g
        \<and> (\<forall>i<c. \<forall>j<c.
              accumulate32 0 (gram_products t c i j) = Some (data g ! (i * c + j))
            \<and> accumulate32 0 (gram_products ?t' c i j) = Some (data g' ! (i * c + j))
            \<and> mset (gram_products ?t' c i j) = mset (gram_products t c i j))"
  proof (intro allI impI, elim conjE)
    fix g g'
    assume g: "gram_matrix32 t = Some g" and g': "gram_matrix32 ?t' = Some g'"
    have c: "0 < c"
    proof (rule ccontr)
      assume "\<not> 0 < c"
      then have "gram_matrix32 t = None"
        using assms(1) by (simp add: gram_matrix32_def dim_def tf_reshape_rows_def)
      with g show False by simp
    qed
    note e = gram_matrix32_entries [OF d3(1) c dvd(1) g]
    note e' = gram_matrix32_entries [OF d3(2) c dvd(2) g']
    have m: "mset (gram_products ?t' c i j) = mset (gram_products t c i j)"
      if "i < c" and "j < c" for i j
      using assms(1,2) c assms(3) that by (rule gram_products_spatial_permute)
    show "shape g' = shape g
        \<and> (\<forall>i<c. \<forall>j<c.
              accumulate32 0 (gram_products t c i j) = Some (data g ! (i * c + j))
            \<and> accumulate32 0 (gram_products ?t' c i j) = Some (data g' ! (i * c + j))
            \<and> mset (gram_products ?t' c i j) = mset (gram_products t c i j))"
      using e e' m by simp
  qed
  have same: "(\<forall>i<c. \<forall>j<c. exact_accumulation 0 (gram_products t c i j)
                     \<and> exact_accumulation 0 (gram_products ?t' c i j)) \<longrightarrow>
                gram_matrix32 ?t' = gram_matrix32 t"
  proof (cases "c = 0")
    case True
    then show ?thesis
      using assms(1)
      by (simp add: gram_matrix32_def dim_def tf_reshape_rows_def spatial_permute_shape)
  next
    case False
    then have c: "0 < c" by simp
    show ?thesis
    proof
      assume x: "\<forall>i<c. \<forall>j<c. exact_accumulation 0 (gram_products t c i j)
                     \<and> exact_accumulation 0 (gram_products ?t' c i j)"
      have xa: "exact_accumulation 0 (gram_products t c i j)"
        and xb: "exact_accumulation 0 (gram_products ?t' c i j)" if "i < c" and "j < c" for i j
        using x that by blast+
      have "gram_matrix32 t = gram_matrix t"
        using d3(1) c dvd(1) xa by (rule gram_matrix32_exact)
      moreover have "gram_matrix32 ?t' = gram_matrix ?t'"
        using d3(2) c dvd(2) xb by (rule gram_matrix32_exact)
      ultimately show "gram_matrix32 ?t' = gram_matrix32 t"
        using e1 by simp
    qed
  qed
  show ?thesis
    by (rule conjI [OF e1 conjI [OF e2 conjI [OF e3 conjI [OF rounded same]]]])
qed

theorem gram_matrix_spatial_permutation_rounding_witness:
  "gram_matrix (spatial_permute [1, 0] \<lparr>shape = [1, 2, 1, 2], data = [1, 2, 3, 4]\<rparr>)
     = gram_matrix \<lparr>shape = [1, 2, 1, 2], data = [1, 2, 3, 4]\<rparr>
   \<and> spatial_permute [1, 0] \<lparr>shape = [1, 2, 1, 2], data = [1, 2, 3, 4]\<rparr>
     = \<lparr>shape = [1, 2, 1, 2], data = [3, 4, 1, 2]\<rparr>
   \<and> style_loss [''Mixed_3b'' \<mapsto> \<lparr>shape = [1, 2, 1, 2], data = [0, 1, 1, 0]\<rparr>]
        ([''Mixed_3b'' \<mapsto> \<lparr>shape = [1, 2, 1, 2], data = [1, 2, 3, 4]\<rparr>]
           (''Mixed_3b'' \<mapsto> spatial_permute [1, 0] \<lparr>shape = [1, 2, 1, 2], data = [1, 2, 3, 4]\<rparr>))
        ''Mixed_3b''
     = style_loss [''Mixed_3b'' \<mapsto> \<lparr>shape = [1, 2, 1, 2], data = [0, 1, 1, 0]\<rparr>]
        [''Mixed_3b'' \<mapsto> \<lparr>shape = [1, 2, 1, 2], data = [1, 2, 3, 4]\<rparr>] ''Mixed_3b''
   \<and> mset (gram_products (spatial_permute [1, 0] \<lparr>shape = [1, 2, 1, 2], data = [1, 2, 3, 4]\<rparr>) 2 0 1)
     = mset (gram_products \<lparr>shape = [1, 2, 1, 2], data = [1, 2, 3, 4]\<rparr> 2 0 1)
   \<and> gram_matrix32 (spatial_permute [1, 0] \<lparr>shape = [1, 2, 1, 2], data = [1, 2, 3, 4]\<rparr>)
     = gram_matrix32 \<lparr>shape = [1, 2, 1, 2], data = [1, 2, 3, 4]\<rparr>
   \<and> gram_matrix32 \<lparr>shape = [1, 2, 1, 2], data = [1, 2, 3, 4]\<rparr>
     = Some \<lparr>shape = [2, 2], data = [10, 14, 14, 20]\<rparr>"
proof -
  let ?t = "\<lparr>shape = [1, 2, 1, 2], data = [1, 2, 3, 4]\<rparr>"
  let ?t' = "spatial_permute [1, 0] ?t"
  let ?S = "[''Mixed_3b'' \<mapsto> \<lparr>shape = [1, 2, 1, 2], data = [0, 1, 1, 0]\<rparr>]"
  let ?X = "[''Mixed_3b'' \<mapsto> ?t]"
  have p: "is_permutation [1, 0] (2 * 1)"
    by (auto simp: is_permutation_def)
  have "shape ?t = [1, 2, 1, 2]" and "wf_tensor ?t"
    by (simp_all add: wf_tensor_def)
  note th = gram_matrix_spatial_permutation_rounding [OF this p]
  note e = spatial_permute_example
  have c1: "gram_matrix ?t' = gram_matrix ?t"
    using th by blast
  have "?X ''Mixed_3b'' = Some ?t \<longrightarrow>
          style_loss ?S (?X(''Mixed_3b'' \<mapsto> ?t')) ''Mixed_3b'' = style_loss ?S ?X ''Mixed_3b''"
    using th by blast
  then have c2: "style_loss ?S (?X(''Mixed_3b'' \<mapsto> ?t')) ''Mixed_3b'' = style_loss ?S ?X ''Mixed_3b''"
    by simp
  have g: "gram_matrix32 ?t = Some \<lparr>shape = [2, 2], data = [10, 14, 14, 20]\<rparr>"
    and g': "gram_matrix32 ?t' = Some \<lparr>shape = [2, 2], data = [10, 14, 14, 20]\<rparr>"
    unfolding e by (rule gram_matrix32_example)+
  have "\<forall>i<2. \<forall>j<2. mset (gram_products ?t' 2 i j) = mset (gram_products ?t 2 i j)"
    using th g g' by blast
  then have c3: "mset (gram_products ?t' 2 0 1) = mset (gram_products ?t 2 0 1)"
    by simp
  have "\<forall>i<2. \<forall>j<2. exact_accumulation 0 (gram_products ?t 2 i j)
                     \<and> exact_accumulation 0 (gram_products ?t' 2 i j)"
    unfolding e by (rule exact_accumulation_example)
  then have c4: "gram_matrix32 ?t' = gram_matrix32 ?t"
    using th by blast
  show ?thesis
    using c1 e c2 c3 c4 g by (intro conjI)
qed

end
